theory Spec2Isabelle
  imports Main "HOL-Library.Sublist" "HOL-Library.Char_ord" "HOL-Library.List_Lexorder"
begin

section \<open>Values, documents and errors\<close>

text \<open>
  The server keeps users and tasks as documents of a document store and handles them as
  Python dictionaries. A calendar date is \<open>datetime.date\<close> (year, month, day), which Python
  compares as that triple; an instant (\<open>datetime.datetime\<close>) is a count of whole seconds
  since the epoch, and a \<open>timedelta\<close> a count of seconds.
\<close>

datatype date = Date (year: nat) (month: nat) (day: nat)

fun date_lt :: "date \<Rightarrow> date \<Rightarrow> bool" where
  "date_lt (Date y1 m1 d1) (Date y2 m2 d2) =
     (y1 < y2 \<or> (y1 = y2 \<and> (m1 < m2 \<or> (m1 = m2 \<and> d1 < d2))))"

type_synonym datetime = int
type_synonym timedelta = int

text \<open>
  The values found under the keys of a task document: \<open>None\<close>, a boolean, a string, a
  \<open>date\<close> and a \<open>datetime\<close>. The server writes no number into a task document, so
  numbers are left out; on the kinds kept, Python's \<open>==\<close> is equality of the value.
\<close>

datatype pyval = PNone | PBool bool | PStr string | PDate date | PDatetime datetime

type_synonym doc = "string \<rightharpoonup> pyval"

datatype error =
    ValueError
  | TypeError
  | OperationFailure
  | HTTPException nat string

text \<open>
  The functions of the \<open>datetime\<close> module the server calls. They are the standard
  library's, not the server's, so the model takes them as a parameter:
  \<open>date.isoformat()\<close>, \<open>datetime.isoformat()\<close> and
  \<open>datetime.fromisoformat(s).date()\<close>, which raises \<open>ValueError\<close> (here \<open>None\<close>) on a
  string it cannot read.
\<close>

record datelib =
  date_isoformat :: "date \<Rightarrow> string"
  datetime_isoformat :: "datetime \<Rightarrow> string"
  fromisoformat_date :: "string \<Rightarrow> date option"

text \<open>Truth value of a Python object in a condition.\<close>

fun truthy :: "pyval \<Rightarrow> bool" where
  "truthy PNone = False"
| "truthy (PBool b) = b"
| "truthy (PStr s) = (s \<noteq> [])"
| "truthy (PDate d) = True"
| "truthy (PDatetime t) = True"

text \<open>\<open>d.get(k)\<close>, \<open>d.get(k, default)\<close> and \<open>d.setdefault(k, v)\<close>.\<close>

definition dict_get :: "doc \<Rightarrow> string \<Rightarrow> pyval" where
  "dict_get d k = (case d k of None \<Rightarrow> PNone | Some v \<Rightarrow> v)"

definition dict_get_default :: "doc \<Rightarrow> string \<Rightarrow> pyval \<Rightarrow> pyval" where
  "dict_get_default d k dflt = (case d k of None \<Rightarrow> dflt | Some v \<Rightarrow> v)"

definition setdefault :: "doc \<Rightarrow> string \<Rightarrow> pyval \<Rightarrow> doc" where
  "setdefault d k v = (case d k of None \<Rightarrow> d(k \<mapsto> v) | Some _ \<Rightarrow> d)"

section \<open>The response normalizer\<close>

text \<open>
  The overdue test shared by \<open>prepare_task_for_response\<close> and \<open>get_task_stats\<close>:
  \<^verbatim>\<open>
    if task.get('due_date') and not task.get('completed', False):
        if isinstance(task['due_date'], str):
            due_date = datetime.fromisoformat(task['due_date']).date()
        else:
            due_date = task['due_date']
        ... due_date < date.today()
  \<close>
  A string that does not parse raises \<open>ValueError\<close>; a truthy value that is neither a
  string nor a \<open>date\<close> (a boolean, a \<open>datetime\<close>) cannot be compared with a \<open>date\<close> and
  raises \<open>TypeError\<close>. Where the guard is false the comparison is not made (\<open>Inr False\<close>).
\<close>

definition overdue_check :: "datelib \<Rightarrow> date \<Rightarrow> doc \<Rightarrow> error + bool" where
  "overdue_check lib today task =
     (if truthy (dict_get task ''due_date'')
         \<and> \<not> truthy (dict_get_default task ''completed'' (PBool False))
      then (case dict_get task ''due_date'' of
              PStr s \<Rightarrow> (case fromisoformat_date lib s of
                           None \<Rightarrow> Inl ValueError
                         | Some due_date \<Rightarrow> Inr (date_lt due_date today))
            | PDate due_date \<Rightarrow> Inr (date_lt due_date today)
            | _ \<Rightarrow> Inl TypeError)
      else Inr False)"

text \<open>
  \<open>prepare_task_for_response(task)\<close>, with \<open>date.today()\<close> as the argument \<open>today\<close>.
  The Python function updates the dictionary it is given and returns it; the model
  returns the updated dictionary.
\<close>

definition prepare_task_for_response :: "datelib \<Rightarrow> date \<Rightarrow> doc \<Rightarrow> error + doc" where
  "prepare_task_for_response lib today task0 =
     (let task1 = setdefault task0 ''due_date'' PNone;
          task2 = setdefault task1 ''priority'' (PStr ''medium'');
          task3 = setdefault task2 ''category'' (PStr ''General'')
      in case overdue_check lib today task3 of
           Inl e \<Rightarrow> Inl e
         | Inr is_overdue \<Rightarrow>
             (let task4 = task3(''is_overdue'' \<mapsto> PBool is_overdue)
              in Inr (case dict_get task4 ''due_date'' of
                        PDate d \<Rightarrow> task4(''due_date'' \<mapsto> PStr (date_isoformat lib d))
                      | PDatetime t \<Rightarrow> task4(''due_date'' \<mapsto> PStr (datetime_isoformat lib t))
                      | _ \<Rightarrow> task4)))"

text \<open>
  The calendar date a record's \<open>due_date\<close> stands for: the date itself, or the date its
  string reads as; none when the field is absent, null or of another kind.
\<close>

definition due_date_of :: "datelib \<Rightarrow> doc \<Rightarrow> date option" where
  "due_date_of lib task =
     (case dict_get task ''due_date'' of
        PStr s \<Rightarrow> fromisoformat_date lib s
      | PDate d \<Rightarrow> Some d
      | _ \<Rightarrow> None)"

section \<open>Passwords and session tokens\<close>

text \<open>
  A user document, as \<open>signup\<close> writes it (keys \<open>id\<close>, \<open>email\<close>, \<open>name\<close>, \<open>password\<close>,
  \<open>created_at\<close>), and the request and response models of the authentication routes.
\<close>

record user =
  u_id :: string
  u_email :: string
  u_name :: string
  u_password :: string
  u_created_at :: datetime

record user_create =
  uc_email :: string
  uc_name :: string
  uc_password :: string

record user_login =
  ul_email :: string
  ul_password :: string

record user_response =
  ur_id :: string
  ur_email :: string
  ur_name :: string
  ur_created_at :: datetime

text \<open>The claims of a token: the subject and the expiry, each possibly absent.\<close>

record claims =
  sub :: "string option"
  exp :: "datetime option"

text \<open>
  Modelled from the spec: \<open>jwt.encode\<close> and \<open>jwt.decode\<close> belong to the JWT library and
  are not part of the sources. The spec (4.2) has a token encode subject and expiry,
  signed with a server-held secret, and has validation fail with Expired if the current
  time is at or past the encoded expiry and with Invalid if the signature does not
  verify or the token is malformed. A token is therefore its claims together with the
  key that signed them, or something that is not a token at all; the expiry is kept in
  the clock's unit (whole seconds).
\<close>

datatype token = Signed string claims | Malformed

datatype jwt_error = ExpiredSignatureError | InvalidTokenError

text \<open>
  Modelled from the spec: \<open>jwt.encode\<close> is the library's; the spec has the token
  encode the claims, signed with the secret.
\<close>

definition jwt_encode :: "claims \<Rightarrow> string \<Rightarrow> token" where
  "jwt_encode payload key = Signed key payload"

text \<open>
  Modelled from the spec: \<open>jwt.decode\<close> is the library's; the spec has validation fail
  with Invalid on a malformed token or a signature that does not verify, and with
  Expired if the current time is at or past the encoded expiry.
\<close>

definition jwt_decode :: "token \<Rightarrow> string \<Rightarrow> datetime \<Rightarrow> jwt_error + claims" where
  "jwt_decode tok key now =
     (case tok of
        Malformed \<Rightarrow> Inl InvalidTokenError
      | Signed k payload \<Rightarrow>
          if k \<noteq> key then Inl InvalidTokenError
          else (case exp payload of
                  None \<Rightarrow> Inr payload
                | Some e \<Rightarrow> if e \<le> now then Inl ExpiredSignatureError else Inr payload))"

record token_response =
  access_token :: token
  token_type :: string
  user :: user_response

definition ACCESS_TOKEN_EXPIRE_MINUTES :: int where
  "ACCESS_TOKEN_EXPIRE_MINUTES = 30"

definition timedelta_minutes :: "int \<Rightarrow> timedelta" where
  "timedelta_minutes m = 60 * m"

text \<open>
  \<open>create_access_token(data, expires_delta=None)\<close>, with the reading of the clock as
  \<open>now\<close>. The test \<open>if expires_delta:\<close> is false for \<open>None\<close> and for a zero
  \<open>timedelta\<close>.
\<close>

definition create_access_token :: "string \<Rightarrow> datetime \<Rightarrow> claims \<Rightarrow> timedelta option \<Rightarrow> token" where
  "create_access_token SECRET_KEY now data expires_delta =
     (let expire = (case expires_delta of
                      Some delta \<Rightarrow> if delta \<noteq> 0 then now + delta
                                    else now + timedelta_minutes 15
                    | None \<Rightarrow> now + timedelta_minutes 15);
          to_encode = data\<lparr>exp := Some expire\<rparr>
      in jwt_encode to_encode SECRET_KEY)"

definition credentials_exception :: error where
  "credentials_exception = HTTPException 401 ''Could not validate credentials''"

text \<open>\<open>db.users.find_one({"id": ...})\<close> and \<open>db.users.find_one({"email": ...})\<close>.\<close>

definition find_user_by_id :: "user list \<Rightarrow> string \<Rightarrow> user option" where
  "find_user_by_id users i = find (\<lambda>u. u_id u = i) users"

definition find_user_by_email :: "user list \<Rightarrow> string \<Rightarrow> user option" where
  "find_user_by_email users e = find (\<lambda>u. u_email u = e) users"

text \<open>\<open>get_current_user(credentials)\<close> at the clock reading \<open>now\<close>.\<close>

definition get_current_user :: "string \<Rightarrow> datetime \<Rightarrow> user list \<Rightarrow> token option \<Rightarrow> error + user" where
  "get_current_user SECRET_KEY now users credentials =
     (case credentials of
        None \<Rightarrow> Inl credentials_exception
      | Some tok \<Rightarrow>
          (case jwt_decode tok SECRET_KEY now of
             Inl ExpiredSignatureError \<Rightarrow> Inl (HTTPException 401 ''Token expired'')
           | Inl InvalidTokenError \<Rightarrow> Inl credentials_exception
           | Inr payload \<Rightarrow>
               (case sub payload of
                  None \<Rightarrow> Inl credentials_exception
                | Some user_id \<Rightarrow>
                    (case find_user_by_id users user_id of
                       None \<Rightarrow> Inl credentials_exception
                     | Some u \<Rightarrow> Inr u))))"

text \<open>
  \<open>signup(user_data)\<close>. The route reads the clock twice (\<open>created_at\<close>, then the token's
  issuance), draws a fresh identifier (\<open>uuid4\<close>) and hashes the password with a fresh
  salt (\<open>hash_password\<close>, the bcrypt library's work); these are arguments. The result is
  the user store after the call together with the response or the error raised.
\<close>

definition signup ::
  "string \<Rightarrow> datetime \<Rightarrow> datetime \<Rightarrow> string \<Rightarrow> (string \<Rightarrow> string) \<Rightarrow> user list \<Rightarrow> user_create
     \<Rightarrow> user list \<times> (error + token_response)" where
  "signup SECRET_KEY created issued uuid4 hash_password users user_data =
     (case find_user_by_email users (uc_email user_data) of
        Some existing_user \<Rightarrow> (users, Inl (HTTPException 400 ''Email already registered''))
      | None \<Rightarrow>
          (let user_id = uuid4;
               hashed_password = hash_password (uc_password user_data);
               user_doc = \<lparr>u_id = user_id, u_email = uc_email user_data,
                           u_name = uc_name user_data, u_password = hashed_password,
                           u_created_at = created\<rparr>;
               access_token_expires = timedelta_minutes ACCESS_TOKEN_EXPIRE_MINUTES;
               access_token = create_access_token SECRET_KEY issued
                                \<lparr>sub = Some user_id, exp = None\<rparr> (Some access_token_expires);
               user_response = \<lparr>ur_id = user_id, ur_email = uc_email user_data,
                                ur_name = uc_name user_data, ur_created_at = created\<rparr>
           in (users @ [user_doc],
               Inr \<lparr>access_token = access_token, token_type = ''bearer'',
                     user = user_response\<rparr>)))"

text \<open>\<open>login(login_data)\<close>; \<open>verify_password\<close> is bcrypt's check, an argument.\<close>

definition login ::
  "string \<Rightarrow> datetime \<Rightarrow> (string \<Rightarrow> string \<Rightarrow> bool) \<Rightarrow> user list \<Rightarrow> user_login
     \<Rightarrow> error + token_response" where
  "login SECRET_KEY issued verify_password users login_data =
     (case find_user_by_email users (ul_email login_data) of
        None \<Rightarrow> Inl (HTTPException 401 ''Incorrect email or password'')
      | Some u \<Rightarrow>
          if \<not> verify_password (ul_password login_data) (u_password u)
          then Inl (HTTPException 401 ''Incorrect email or password'')
          else
            (let access_token_expires = timedelta_minutes ACCESS_TOKEN_EXPIRE_MINUTES;
                 access_token = create_access_token SECRET_KEY issued
                                  \<lparr>sub = Some (u_id u), exp = None\<rparr> (Some access_token_expires);
                 user_response = \<lparr>ur_id = u_id u, ur_email = u_email u,
                                  ur_name = u_name u, ur_created_at = u_created_at u\<rparr>
             in Inr \<lparr>access_token = access_token, token_type = ''bearer'',
                      user = user_response\<rparr>))"

section \<open>The task store\<close>

text \<open>
  The task collection is the list of its documents, in insertion order. A filter
  \<open>{"id": task_id, "user_id": user_id}\<close> selects the documents holding exactly these
  values; \<open>find_one\<close> returns the first of them and \<open>update_one\<close> with \<open>$set\<close> overwrites
  the given keys of the first of them.
\<close>

definition owned_by :: "string \<Rightarrow> doc \<Rightarrow> bool" where
  "owned_by user_id d = (d ''user_id'' = Some (PStr user_id))"

definition is_task :: "string \<Rightarrow> string \<Rightarrow> doc \<Rightarrow> bool" where
  "is_task task_id user_id d = (d ''id'' = Some (PStr task_id) \<and> owned_by user_id d)"

definition find_one_task :: "doc list \<Rightarrow> string \<Rightarrow> string \<Rightarrow> doc option" where
  "find_one_task store task_id user_id = find (is_task task_id user_id) store"

fun set_fields :: "doc \<Rightarrow> (string \<times> pyval) list \<Rightarrow> doc" where
  "set_fields d [] = d"
| "set_fields d ((k, v) # kvs) = set_fields (d(k \<mapsto> v)) kvs"

fun update_one :: "(doc \<Rightarrow> bool) \<Rightarrow> (string \<times> pyval) list \<Rightarrow> doc list \<Rightarrow> doc list" where
  "update_one P upd [] = []"
| "update_one P upd (d # ds) =
     (if P d then set_fields d upd # ds else d # update_one P upd ds)"

record task_create =
  tc_title :: string
  tc_description :: "string option"
  tc_due_date :: "date option"
  tc_priority :: string
  tc_category :: "string option"
  tc_completed :: bool

record task_update =
  tu_title :: "string option"
  tu_description :: "string option"
  tu_due_date :: "date option"
  tu_priority :: "string option"
  tu_category :: "string option"
  tu_completed :: "bool option"

text \<open>
  The document \<open>create_task\<close> builds and inserts. (The store adds its own key \<open>_id\<close>,
  which no route reads and the response model drops; the model leaves it out.)
\<close>

definition task_doc :: "datelib \<Rightarrow> datetime \<Rightarrow> string \<Rightarrow> user \<Rightarrow> task_create \<Rightarrow> doc" where
  "task_doc lib now task_id current_user task_data =
     Map.empty
      (''id'' \<mapsto> PStr task_id,
       ''title'' \<mapsto> PStr (tc_title task_data),
       ''description'' \<mapsto> (case tc_description task_data of None \<Rightarrow> PNone | Some s \<Rightarrow> PStr s),
       ''due_date'' \<mapsto> (case tc_due_date task_data of
                           Some d \<Rightarrow> PStr (date_isoformat lib d)
                         | None \<Rightarrow> PNone),
       ''priority'' \<mapsto> PStr (tc_priority task_data),
       ''category'' \<mapsto> PStr (case tc_category task_data of
                                Some c \<Rightarrow> if c \<noteq> [] then c else ''General''
                              | None \<Rightarrow> ''General''),
       ''completed'' \<mapsto> PBool (tc_completed task_data),
       ''user_id'' \<mapsto> PStr (u_id current_user),
       ''created_at'' \<mapsto> PDatetime now,
       ''updated_at'' \<mapsto> PDatetime now)"

text \<open>
  \<open>create_task(task_data, current_user)\<close>: the store after the insertion, and the
  normalised copy of the document. The routes hand this dictionary to the response model
  (\<open>TaskResponse\<close>), whose validation comes after every write to the store and can only
  turn a result into an error; it is the framework's and is not modelled, here and in
  \<open>get_task\<close>, \<open>update_task\<close> and \<open>get_tasks\<close>.
\<close>

definition create_task ::
  "datelib \<Rightarrow> date \<Rightarrow> datetime \<Rightarrow> string \<Rightarrow> doc list \<Rightarrow> user \<Rightarrow> task_create
     \<Rightarrow> doc list \<times> (error + doc)" where
  "create_task lib today now uuid4 store current_user task_data =
     (let d = task_doc lib now uuid4 current_user task_data
      in (store @ [d], prepare_task_for_response lib today d))"

text \<open>\<open>get_task(task_id, current_user)\<close>.\<close>

definition get_task :: "datelib \<Rightarrow> date \<Rightarrow> doc list \<Rightarrow> user \<Rightarrow> string \<Rightarrow> error + doc" where
  "get_task lib today store current_user task_id =
     (case find_one_task store task_id (u_id current_user) of
        None \<Rightarrow> Inl (HTTPException 404 ''Task not found'')
      | Some task \<Rightarrow> prepare_task_for_response lib today task)"

text \<open>
  The dictionary \<open>update_data\<close> that \<open>update_task\<close> fills from the fields of the request
  that are not \<open>None\<close>, as the list of its items in insertion order.
\<close>

definition update_data_of :: "datelib \<Rightarrow> task_update \<Rightarrow> (string \<times> pyval) list" where
  "update_data_of lib task_update =
     (case tu_title task_update of None \<Rightarrow> [] | Some v \<Rightarrow> [(''title'', PStr v)])
   @ (case tu_description task_update of None \<Rightarrow> [] | Some v \<Rightarrow> [(''description'', PStr v)])
   @ (case tu_due_date task_update of None \<Rightarrow> []
        | Some v \<Rightarrow> [(''due_date'', PStr (date_isoformat lib v))])
   @ (case tu_priority task_update of None \<Rightarrow> [] | Some v \<Rightarrow> [(''priority'', PStr v)])
   @ (case tu_category task_update of None \<Rightarrow> [] | Some v \<Rightarrow> [(''category'', PStr v)])
   @ (case tu_completed task_update of None \<Rightarrow> [] | Some v \<Rightarrow> [(''completed'', PBool v)])"

text \<open>An update request that supplies no field: every field is absent or null.\<close>

definition supplies_nothing :: "task_update \<Rightarrow> bool" where
  "supplies_nothing task_update =
     (tu_title task_update = None \<and> tu_description task_update = None
      \<and> tu_due_date task_update = None \<and> tu_priority task_update = None
      \<and> tu_category task_update = None \<and> tu_completed task_update = None)"

text \<open>
  \<open>update_task(task_id, task_update, current_user)\<close> at the clock reading \<open>now\<close>: the
  store after the call and the response or the error.
\<close>

definition update_task ::
  "datelib \<Rightarrow> date \<Rightarrow> datetime \<Rightarrow> doc list \<Rightarrow> user \<Rightarrow> string \<Rightarrow> task_update
     \<Rightarrow> doc list \<times> (error + doc)" where
  "update_task lib today now store current_user task_id task_update =
     (case find_one_task store task_id (u_id current_user) of
        None \<Rightarrow> (store, Inl (HTTPException 404 ''Task not found''))
      | Some existing_task \<Rightarrow>
          (let update_data = update_data_of lib task_update;
               store' = (if update_data \<noteq> []
                         then update_one (is_task task_id (u_id current_user))
                                (update_data @ [(''updated_at'', PDatetime now)]) store
                         else store)
           in case find_one_task store' task_id (u_id current_user) of
                None \<Rightarrow> (store', Inl (HTTPException 404 ''Task not found''))
              | Some updated_task \<Rightarrow>
                  (store', prepare_task_for_response lib today updated_task)))"

section \<open>Listing tasks: filter, search and sort\<close>

text \<open>
  The store's regular-expression engine is not the server's code. The model takes it as
  a parameter: \<open>regex pattern\<close> is the pattern compiled with the option \<open>i\<close>, a
  predicate telling whether the pattern finds a match somewhere in a string, or \<open>None\<close>
  when the pattern does not compile (the store then refuses the query).
\<close>

type_synonym regex_engine = "string \<Rightarrow> (string \<Rightarrow> bool) option"

text \<open>\<open>if category:\<close> and the like: an absent or empty string adds no condition.\<close>

definition if_given :: "string option \<Rightarrow> string option" where
  "if_given x = (case x of None \<Rightarrow> None | Some s \<Rightarrow> if s \<noteq> [] then Some s else None)"

text \<open>
  The filter \<open>get_tasks\<close> builds: the owner, the optional exact matches, and under
  \<open>$or\<close> the search string as the pattern of three \<open>$regex\<close> conditions.
\<close>

record query =
  q_user_id :: string
  q_completed :: "bool option"
  q_category :: "string option"
  q_priority :: "string option"
  q_or :: "string option"

definition build_query ::
  "string \<Rightarrow> bool option \<Rightarrow> string option \<Rightarrow> string option \<Rightarrow> string option \<Rightarrow> query" where
  "build_query user_id completed search category priority =
     \<lparr>q_user_id = user_id, q_completed = completed, q_category = if_given category,
      q_priority = if_given priority, q_or = if_given search\<rparr>"

definition matches_exact :: "query \<Rightarrow> doc \<Rightarrow> bool" where
  "matches_exact q d =
     (owned_by (q_user_id q) d
      \<and> (case q_completed q of None \<Rightarrow> True | Some c \<Rightarrow> d ''completed'' = Some (PBool c))
      \<and> (case q_category q of None \<Rightarrow> True | Some c \<Rightarrow> d ''category'' = Some (PStr c))
      \<and> (case q_priority q of None \<Rightarrow> True | Some p \<Rightarrow> d ''priority'' = Some (PStr p)))"

text \<open>A \<open>$regex\<close> condition holds of a field that is a string the pattern matches.\<close>

definition field_regex :: "(string \<Rightarrow> bool) \<Rightarrow> doc \<Rightarrow> string \<Rightarrow> bool" where
  "field_regex m d k = (case d k of Some (PStr s) \<Rightarrow> m s | _ \<Rightarrow> False)"

definition matches_search :: "(string \<Rightarrow> bool) \<Rightarrow> doc \<Rightarrow> bool" where
  "matches_search m d =
     (field_regex m d ''title'' \<or> field_regex m d ''description'' \<or> field_regex m d ''category'')"

definition mongo_find :: "regex_engine \<Rightarrow> query \<Rightarrow> doc list \<Rightarrow> error + doc list" where
  "mongo_find regex q store =
     (case q_or q of
        None \<Rightarrow> Inr (filter (matches_exact q) store)
      | Some pattern \<Rightarrow>
          (case regex pattern of
             None \<Rightarrow> Inl OperationFailure
           | Some m \<Rightarrow> Inr (filter (\<lambda>d. matches_exact q d \<and> matches_search m d) store)))"

text \<open>
  The order of the store on field values: null (an absent field too) before strings
  before booleans before dates; strings by their bytes. A \<open>date\<close> is no value of the
  store (the driver does not encode it); the order puts it last so as to be total.
\<close>

fun bson_rank :: "pyval option \<Rightarrow> nat" where
  "bson_rank None = 0"
| "bson_rank (Some PNone) = 0"
| "bson_rank (Some (PStr s)) = 1"
| "bson_rank (Some (PBool b)) = 2"
| "bson_rank (Some (PDatetime t)) = 3"
| "bson_rank (Some (PDate d)) = 4"

fun bson_le :: "pyval option \<Rightarrow> pyval option \<Rightarrow> bool" where
  "bson_le (Some (PStr s)) (Some (PStr t)) = (s \<le> t)"
| "bson_le (Some (PBool a)) (Some (PBool b)) = (a \<le> b)"
| "bson_le (Some (PDatetime a)) (Some (PDatetime b)) = (a \<le> b)"
| "bson_le (Some (PDate a)) (Some (PDate b)) = (\<not> date_lt b a)"
| "bson_le a b = (bson_rank a \<le> bson_rank b)"

text \<open>
  The \<open>$switch\<close> of the pipeline: \<open>priority_order\<close> is 3 for high, 2 for medium, 1 for
  low and 0 otherwise.
\<close>

definition priority_order :: "doc \<Rightarrow> int" where
  "priority_order d =
     (if d ''priority'' = Some (PStr ''high'') then 3
      else if d ''priority'' = Some (PStr ''medium'') then 2
      else if d ''priority'' = Some (PStr ''low'') then 1
      else 0)"

text \<open>
  \<open>{"$sort": {"priority_order": sort_direction, "created_at": -1}}\<close>: whether \<open>a\<close> may
  stand before \<open>b\<close>. And the same for \<open>.sort(sort_field, sort_direction)\<close>.
\<close>

definition priority_before :: "int \<Rightarrow> doc \<Rightarrow> doc \<Rightarrow> bool" where
  "priority_before sort_direction a b =
     (if priority_order a \<noteq> priority_order b
      then (if sort_direction = 1 then priority_order a < priority_order b
            else priority_order b < priority_order a)
      else bson_le (b ''created_at'') (a ''created_at''))"

definition field_before :: "string \<Rightarrow> int \<Rightarrow> doc \<Rightarrow> doc \<Rightarrow> bool" where
  "field_before sort_field sort_direction a b =
     (if sort_direction = 1 then bson_le (a sort_field) (b sort_field)
      else bson_le (b sort_field) (a sort_field))"

text \<open>
  The store's sort, as an insertion sort. Documents that the sort keys do not tell
  apart keep their order here; the store promises no order among them.
\<close>

fun insert_by :: "('a \<Rightarrow> 'a \<Rightarrow> bool) \<Rightarrow> 'a \<Rightarrow> 'a list \<Rightarrow> 'a list" where
  "insert_by before x [] = [x]"
| "insert_by before x (y # ys) =
     (if before x y then x # y # ys else y # insert_by before x ys)"

fun mongo_sort :: "('a \<Rightarrow> 'a \<Rightarrow> bool) \<Rightarrow> 'a list \<Rightarrow> 'a list" where
  "mongo_sort before [] = []"
| "mongo_sort before (x # xs) = insert_by before x (mongo_sort before xs)"

text \<open>
  The documents \<open>get_tasks\<close> reads, in the order it reads them (\<open>to_list(1000)\<close> keeps
  the first thousand). The pipeline's added field \<open>priority_order\<close> decides the order and
  is dropped by the response model; the documents of the model do not carry it.
\<close>

definition get_tasks_docs ::
  "regex_engine \<Rightarrow> doc list \<Rightarrow> user \<Rightarrow> bool option \<Rightarrow> string option \<Rightarrow> string option
     \<Rightarrow> string option \<Rightarrow> string option \<Rightarrow> string option \<Rightarrow> error + doc list" where
  "get_tasks_docs regex store current_user completed search category priority sort_by sort_order =
     (let query = build_query (u_id current_user) completed search category priority;
          sort_direction = (if sort_order = Some ''asc'' then 1 else - 1 :: int);
          sort_field = (case if_given sort_by of Some f \<Rightarrow> f | None \<Rightarrow> ''default_field_name'')
      in case mongo_find regex query store of
           Inl e \<Rightarrow> Inl e
         | Inr matched \<Rightarrow>
             Inr (take 1000
                   (if sort_by = Some ''priority''
                    then mongo_sort (priority_before sort_direction) matched
                    else mongo_sort (field_before sort_field sort_direction) matched)))"

text \<open>The loop over the documents read: the first error ends it.\<close>

fun prepare_all :: "datelib \<Rightarrow> date \<Rightarrow> doc list \<Rightarrow> error + doc list" where
  "prepare_all lib today [] = Inr []"
| "prepare_all lib today (task # tasks) =
     (case prepare_task_for_response lib today task of
        Inl e \<Rightarrow> Inl e
      | Inr response_task \<Rightarrow>
          (case prepare_all lib today tasks of
             Inl e \<Rightarrow> Inl e
           | Inr response_tasks \<Rightarrow> Inr (response_task # response_tasks)))"

definition get_tasks ::
  "datelib \<Rightarrow> regex_engine \<Rightarrow> date \<Rightarrow> doc list \<Rightarrow> user \<Rightarrow> bool option \<Rightarrow> string option
     \<Rightarrow> string option \<Rightarrow> string option \<Rightarrow> string option \<Rightarrow> string option \<Rightarrow> error + doc list" where
  "get_tasks lib regex today store current_user completed search category priority sort_by sort_order =
     (case get_tasks_docs regex store current_user completed search category priority
             sort_by sort_order of
        Inl e \<Rightarrow> Inl e
      | Inr tasks \<Rightarrow> prepare_all lib today tasks)"

section \<open>Statistics\<close>

record category_entry =
  ce_name :: pyval
  ce_count :: int
  ce_color :: string

record task_stats =
  ts_total :: int
  ts_completed :: int
  ts_pending :: int
  ts_overdue :: int
  ts_high_priority :: int
  ts_categories :: "category_entry list"

text \<open>
  The dictionary \<open>categories\<close> as the list of its items in insertion order, and the step
  \<^verbatim>\<open>
    if category in categories: categories[category] += 1
    else: categories[category] = 1
  \<close>
\<close>

fun count_category :: "(pyval \<times> int) list \<Rightarrow> pyval \<Rightarrow> (pyval \<times> int) list" where
  "count_category [] category = [(category, 1)]"
| "count_category ((k, c) # kvs) category =
     (if k = category then (k, c + 1) # kvs else (k, c) # count_category kvs category)"

text \<open>The loop of \<open>get_task_stats\<close> over the tasks, from the counters reached so far.\<close>

fun stats_loop ::
  "datelib \<Rightarrow> date \<Rightarrow> doc list \<Rightarrow> int \<Rightarrow> int \<Rightarrow> (pyval \<times> int) list
     \<Rightarrow> error + (int \<times> int \<times> (pyval \<times> int) list)" where
  "stats_loop lib today [] overdue high_priority categories =
     Inr (overdue, high_priority, categories)"
| "stats_loop lib today (task # tasks) overdue high_priority categories =
     (let high_priority' = (if dict_get task ''priority'' = PStr ''high''
                            then high_priority + 1 else high_priority)
      in case overdue_check lib today task of
           Inl e \<Rightarrow> Inl e
         | Inr is_overdue \<Rightarrow>
             stats_loop lib today tasks
               (if is_overdue then overdue + 1 else overdue)
               high_priority'
               (count_category categories
                  (dict_get_default task ''category'' (PStr ''General''))))"

definition category_colors :: "(string \<times> string) list" where
  "category_colors =
     [(''General'', ''#6B7280''), (''Work'', ''#DC2626''), (''Personal'', ''#059669''),
      (''Health'', ''#7C3AED''), (''Learning'', ''#EA580C''), (''Shopping'', ''#0891B2'')]"

definition category_color :: "pyval \<Rightarrow> string" where
  "category_color name =
     (case name of
        PStr n \<Rightarrow> (case map_of category_colors n of Some c \<Rightarrow> c | None \<Rightarrow> ''#6B7280'')
      | _ \<Rightarrow> ''#6B7280'')"

definition get_task_stats :: "datelib \<Rightarrow> date \<Rightarrow> doc list \<Rightarrow> user \<Rightarrow> error + task_stats" where
  "get_task_stats lib today store current_user =
     (let tasks = take 1000 (filter (owned_by (u_id current_user)) store);
          total = int (length tasks);
          completed = int (length (filter (\<lambda>t. truthy (dict_get_default t ''completed'' (PBool False))) tasks));
          pending = total - completed
      in case stats_loop lib today tasks 0 0 [] of
           Inl e \<Rightarrow> Inl e
         | Inr (overdue, high_priority, categories) \<Rightarrow>
             Inr \<lparr>ts_total = total, ts_completed = completed, ts_pending = pending,
                   ts_overdue = overdue, ts_high_priority = high_priority,
                   ts_categories = map (\<lambda>(name, count).
                                       \<lparr>ce_name = name, ce_count = count,
                                        ce_color = category_color name\<rparr>) categories\<rparr>)"

section \<open>An instance of the library parameters\<close>

text \<open>
  To run the model on examples, the parameters need values. For the dates: the form
  \<open>YYYY-MM-DD\<close> that \<open>date.isoformat()\<close> writes, read back by a parser of exactly that
  form, and \<open>YYYY-MM-DDTHH:MM:SS\<close> for an instant.
\<close>

definition digit_char :: "nat \<Rightarrow> char" where
  "digit_char n = char_of (48 + n mod 10)"

definition digit_val :: "char \<Rightarrow> nat option" where
  "digit_val c = (let n = of_char c :: nat in if 48 \<le> n \<and> n \<le> 57 then Some (n - 48) else None)"

definition pad2 :: "nat \<Rightarrow> string" where
  "pad2 n = [digit_char (n div 10), digit_char n]"

definition pad4 :: "nat \<Rightarrow> string" where
  "pad4 n = [digit_char (n div 1000), digit_char (n div 100), digit_char (n div 10), digit_char n]"

fun ymd_isoformat :: "date \<Rightarrow> string" where
  "ymd_isoformat (Date y m d) = pad4 y @ ''-'' @ pad2 m @ ''-'' @ pad2 d"

definition is_leap :: "nat \<Rightarrow> bool" where
  "is_leap y = (y mod 4 = 0 \<and> (y mod 100 \<noteq> 0 \<or> y mod 400 = 0))"

definition days_in_month :: "nat \<Rightarrow> nat \<Rightarrow> nat" where
  "days_in_month y m =
     (if m = 2 then (if is_leap y then 29 else 28)
      else if m = 4 \<or> m = 6 \<or> m = 9 \<or> m = 11 then 30 else 31)"

definition number2 :: "char \<Rightarrow> char \<Rightarrow> nat option" where
  "number2 a b =
     (case (digit_val a, digit_val b) of
        (Some x, Some y) \<Rightarrow> Some (10 * x + y)
      | _ \<Rightarrow> None)"

definition ymd_fromisoformat :: "string \<Rightarrow> date option" where
  "ymd_fromisoformat s =
     (case s of
        [y1, y2, y3, y4, s1, m1, m2, s2, d1, d2] \<Rightarrow>
          (if s1 = CHR ''-'' \<and> s2 = CHR ''-''
           then (case (number2 y1 y2, number2 y3 y4, number2 m1 m2, number2 d1 d2) of
                   (Some yh, Some yl, Some m, Some d) \<Rightarrow>
                     (let y = 100 * yh + yl
                      in if 1 \<le> y \<and> 1 \<le> m \<and> m \<le> 12 \<and> 1 \<le> d \<and> d \<le> days_in_month y m
                         then Some (Date y m d) else None)
                 | _ \<Rightarrow> None)
           else None)
      | _ \<Rightarrow> None)"

text \<open>The civil date of a day number counted from 1970-01-01.\<close>

definition civil_from_days :: "int \<Rightarrow> date" where
  "civil_from_days z0 =
     (let z = z0 + 719468;
          era = z div 146097;
          doe = z mod 146097;
          yoe = (doe - doe div 1460 + doe div 36524 - doe div 146096) div 365;
          doy = doe - (365 * yoe + yoe div 4 - yoe div 100);
          mp = (5 * doy + 2) div 153;
          d = doy - (153 * mp + 2) div 5 + 1;
          m = (if mp < 10 then mp + 3 else mp - 9);
          y = yoe + era * 400 + (if m \<le> 2 then 1 else 0)
      in Date (nat y) (nat m) (nat d))"

definition seconds_isoformat :: "datetime \<Rightarrow> string" where
  "seconds_isoformat t =
     (let s = nat (t mod 86400)
      in ymd_isoformat (civil_from_days (t div 86400))
         @ ''T'' @ pad2 (s div 3600) @ '':'' @ pad2 (s div 60 mod 60) @ '':'' @ pad2 (s mod 60))"

definition iso_lib :: datelib where
  "iso_lib = \<lparr>date_isoformat = ymd_isoformat, datetime_isoformat = seconds_isoformat,
              fromisoformat_date = ymd_fromisoformat\<rparr>"

text \<open>
  For the regular expressions: an engine for the patterns made of ordinary characters
  and the dot, which stands for any character but a line feed; letters match without
  regard to case. It refuses a pattern holding any other special character, so it says
  nothing about those.
\<close>

definition lower_ascii :: "char \<Rightarrow> char" where
  "lower_ascii c =
     (let n = of_char c :: nat in if 65 \<le> n \<and> n \<le> 90 then char_of (n + 32) else c)"

definition special_chars :: "char list" where
  "special_chars =
     [CHR 0x5C, CHR ''^'', CHR ''$'', CHR ''|'', CHR ''?'', CHR ''*'', CHR ''+'',
      CHR ''('', CHR '')'', CHR ''['', CHR '']'', CHR ''{'', CHR ''}'']"

definition rx_char :: "char \<Rightarrow> char \<Rightarrow> bool" where
  "rx_char p c = (if p = CHR ''.'' then c \<noteq> CHR 0x0A else lower_ascii p = lower_ascii c)"

fun rx_prefix :: "string \<Rightarrow> string \<Rightarrow> bool" where
  "rx_prefix [] s = True"
| "rx_prefix (p # ps) [] = False"
| "rx_prefix (p # ps) (c # cs) = (rx_char p c \<and> rx_prefix ps cs)"

fun rx_find :: "string \<Rightarrow> string \<Rightarrow> bool" where
  "rx_find p [] = rx_prefix p []"
| "rx_find p (c # cs) = (rx_prefix p (c # cs) \<or> rx_find p cs)"

definition dot_regex :: regex_engine where
  "dot_regex pattern =
     (if \<exists>c \<in> set pattern. c \<in> set special_chars then None else Some (rx_find pattern))"






section \<open>Example data\<close>

text \<open>A user, her stored document, and the response to her signup with the key \<open>k\<close>, the
  clock at 5 and then 7, the identifier \<open>u1\<close> and a hash that leaves the password as it is.\<close>

definition alice :: user_create where
  "alice = \<lparr>uc_email = ''a@x.com'', uc_name = ''A'', uc_password = ''pw''\<rparr>"

definition alice_doc :: user where
  "alice_doc = \<lparr>u_id = ''u1'', u_email = ''a@x.com'', u_name = ''A'', u_password = ''pw'', u_created_at = 5\<rparr>"

definition alice_response :: token_response where
  "alice_response =
     \<lparr>access_token = Signed ''k'' \<lparr>sub = Some ''u1'', exp = Some 1807\<rparr>, token_type = ''bearer'',
      user = \<lparr>ur_id = ''u1'', ur_email = ''a@x.com'', ur_name = ''A'', ur_created_at = 5\<rparr>\<rparr>"

text \<open>Task documents as \<open>create_task\<close> writes them for this user, and the store of the
  scenario of the priority sort: priorities low, high, medium, created in this order.\<close>

definition example_task :: "string \<Rightarrow> string \<Rightarrow> datetime \<Rightarrow> doc" where
  "example_task task_id priority created =
     task_doc iso_lib created task_id alice_doc
       \<lparr>tc_title = task_id, tc_description = Some [], tc_due_date = None,
        tc_priority = priority, tc_category = None, tc_completed = False\<rparr>"

definition scenario_store :: "doc list" where
  "scenario_store =
     [example_task ''t1'' ''low'' 1, example_task ''t2'' ''high'' 2, example_task ''t3'' ''medium'' 3]"

text \<open>The statistics of that store.\<close>

definition scenario_stats :: task_stats where
  "scenario_stats =
     \<lparr>ts_total = 3, ts_completed = 0, ts_pending = 3, ts_overdue = 0, ts_high_priority = 1,
      ts_categories = [\<lparr>ce_name = PStr ''General'', ce_count = 3, ce_color = ''#6B7280''\<rparr>]\<rparr>"

text \<open>A task due on 2024-03-05; a record from before the newer fields, whose due date is
  a date object; and a task titled \<open>abc\<close>.\<close>

definition due_task :: doc where
  "due_task =
     task_doc iso_lib 1 ''t9'' alice_doc
       \<lparr>tc_title = ''pay'', tc_description = None, tc_due_date = Some (Date 2024 3 5),
        tc_priority = ''high'', tc_category = Some ''Work'', tc_completed = False\<rparr>"

definition legacy_task :: doc where
  "legacy_task =
     Map.empty(''id'' \<mapsto> PStr ''t0'', ''title'' \<mapsto> PStr ''old'',
               ''due_date'' \<mapsto> PDate (Date 2024 3 5), ''user_id'' \<mapsto> PStr ''u1'')"


text \<open>Two update requests: the title \<open>t1\<close> and nothing else; completed and nothing else.\<close>

definition same_title_update :: task_update where
  "same_title_update =
     \<lparr>tu_title = Some ''t1'', tu_description = None, tu_due_date = None,
      tu_priority = None, tu_category = None, tu_completed = None\<rparr>"

definition complete_update :: task_update where
  "complete_update =
     \<lparr>tu_title = None, tu_description = None, tu_due_date = None,
      tu_priority = None, tu_category = None, tu_completed = Some True\<rparr>"

section \<open>Properties of the session tokens and of signup\<close>

lemma route_token:
  "create_access_token key T \<lparr>sub = Some uid, exp = None\<rparr> (Some (timedelta_minutes ACCESS_TOKEN_EXPIRE_MINUTES))
     = Signed key \<lparr>sub = Some uid, exp = Some (T + 1800)\<rparr>"
  by (simp add: create_access_token_def jwt_encode_def timedelta_minutes_def ACCESS_TOKEN_EXPIRE_MINUTES_def)

lemma signup_token:
  assumes "signup key created T uid h users d = (users', Inr r)"
  shows "access_token r = Signed key \<lparr>sub = Some uid, exp = Some (T + 1800)\<rparr>"
    and "users' = users @ [\<lparr>u_id = uid, u_email = uc_email d, u_name = uc_name d, u_password = h (uc_password d), u_created_at = created\<rparr>]"
proof -
  from assms have n: "find_user_by_email users (uc_email d) = None"
    by (cases "find_user_by_email users (uc_email d)") (simp_all add: signup_def)
  from assms show "access_token r = Signed key \<lparr>sub = Some uid, exp = Some (T + 1800)\<rparr>"
    unfolding signup_def n Let_def route_token by auto
  from assms show "users' = users @ [\<lparr>u_id = uid, u_email = uc_email d, u_name = uc_name d, u_password = h (uc_password d), u_created_at = created\<rparr>]"
    unfolding signup_def n Let_def route_token by auto
qed

lemma find_Some_mem: "find P xs = Some x \<Longrightarrow> x \<in> set xs \<and> P x"
  by (induction xs) (auto split: if_splits)

lemma find_ex: "x \<in> set xs \<Longrightarrow> P x \<Longrightarrow> \<exists>y. find P xs = Some y \<and> P y"
  by (induction xs) auto

lemma login_token:
  assumes "login key T v users l = Inr r"
  shows "\<exists>u \<in> set users. access_token r = Signed key \<lparr>sub = Some (u_id u), exp = Some (T + 1800)\<rparr>"
proof (cases "find_user_by_email users (ul_email l)")
  case None
  with assms show ?thesis by (simp add: login_def)
next
  case (Some u)
  then have m: "u \<in> set users" unfolding find_user_by_email_def using find_Some_mem by fastforce
  from assms Some have "access_token r = Signed key \<lparr>sub = Some (u_id u), exp = Some (T + 1800)\<rparr>"
    unfolding login_def Let_def route_token by (auto split: if_splits)
  with m show ?thesis by blast
qed


lemma find_user_by_id_ex:
  "u \<in> set users \<Longrightarrow> \<exists>u'. find_user_by_id users (u_id u) = Some u' \<and> u_id u' = u_id u"
  unfolding find_user_by_id_def using find_ex[of u users "\<lambda>x. u_id x = u_id u"] by simp

lemma expired_token:
  "e \<le> now \<Longrightarrow> get_current_user key now us (Some (Signed key \<lparr>sub = s, exp = Some e\<rparr>)) = Inl (HTTPException 401 ''Token expired'')"
  by (simp add: get_current_user_def jwt_decode_def)

lemma live_token:
  "now < e \<Longrightarrow> find_user_by_id us uid = Some u \<Longrightarrow> get_current_user key now us (Some (Signed key \<lparr>sub = Some uid, exp = Some e\<rparr>)) = Inr u"
  by (simp add: get_current_user_def jwt_decode_def)

text \<open>
  Claim C3. A token issued by \<open>signup\<close> or \<open>login\<close> at the clock reading \<open>T\<close> carries the
  expiry \<open>T\<close> plus 30 minutes and the subject of a stored user; presented 29 minutes
  after \<open>T\<close> it is accepted and yields that user, presented 31 minutes after \<open>T\<close> it is
  rejected as expired, and it is rejected as expired at every time at or past the expiry,
  whatever the user store holds.
\<close>

theorem token_valid_for_30_minutes:
  assumes "signup key created T uid h users d = (users', Inr r)
           \<or> (login key T v users l = Inr r \<and> users' = users)"
  shows "\<exists>c u. access_token r = Signed key c \<and> exp c = Some (T + 30 * 60)
           \<and> sub c = Some (u_id u)
           \<and> get_current_user key (T + 29 * 60) users' (Some (access_token r)) = Inr u
           \<and> get_current_user key (T + 31 * 60) users' (Some (access_token r))
               = Inl (HTTPException 401 ''Token expired'')
           \<and> (\<forall>now us. T + 30 * 60 \<le> now \<longrightarrow>
                 get_current_user key now us (Some (access_token r))
                   = Inl (HTTPException 401 ''Token expired''))"
proof -
  have "\<exists>uid'. access_token r = Signed key \<lparr>sub = Some uid', exp = Some (T + 1800)\<rparr>
          \<and> (\<exists>u \<in> set users'. u_id u = uid')"
    using assms
  proof
    assume s: "signup key created T uid h users d = (users', Inr r)"
    show ?thesis using signup_token[OF s] by simp
  next
    assume l: "login key T v users l = Inr r \<and> users' = users"
    then show ?thesis using login_token[of key T v users l r] by auto
  qed
  then obtain uid' u0 where tok: "access_token r = Signed key \<lparr>sub = Some uid', exp = Some (T + 1800)\<rparr>"
    and u0: "u0 \<in> set users'" "u_id u0 = uid'" by blast
  obtain u where u: "find_user_by_id users' uid' = Some u" "u_id u = uid'"
    using find_user_by_id_ex[OF u0(1)] u0(2) by auto
  have a: "get_current_user key (T + 29 * 60) users' (Some (access_token r)) = Inr u"
    unfolding tok by (rule live_token[OF _ u(1)]) simp
  have b: "\<forall>now us. T + 30 * 60 \<le> now \<longrightarrow>
                 get_current_user key now us (Some (access_token r))
                   = Inl (HTTPException 401 ''Token expired'')"
    unfolding tok by (simp add: expired_token)
  have c: "get_current_user key (T + 31 * 60) users' (Some (access_token r))
               = Inl (HTTPException 401 ''Token expired'')"
    unfolding tok by (rule expired_token) simp
  have d: "exp \<lparr>sub = Some uid', exp = Some (T + 1800)\<rparr> = Some (T + 30 * 60)
           \<and> sub \<lparr>sub = Some uid', exp = Some (T + 1800)\<rparr> = Some (u_id u)"
    using u(2) by simp
  show ?thesis
    apply (rule exI[of _ "\<lparr>sub = Some uid', exp = Some (T + 1800)\<rparr>"])
    apply (rule exI[of _ u])
    using tok a b c d by blast
qed


text \<open>
  Claim C9. Called without \<open>expires_delta\<close>, \<open>create_access_token\<close> sets the expiry 15
  minutes after the clock reading; called with the 30 minutes of
  \<open>ACCESS_TOKEN_EXPIRE_MINUTES\<close> it sets it 30 minutes after; and the tokens of \<open>signup\<close>
  and \<open>login\<close> are those of the call that passes these 30 minutes.
\<close>

theorem create_access_token_default_15_minutes:
  "create_access_token key now data None = jwt_encode (data\<lparr>exp := Some (now + 15 * 60)\<rparr>) key
   \<and> create_access_token key now data (Some (timedelta_minutes ACCESS_TOKEN_EXPIRE_MINUTES))
       = jwt_encode (data\<lparr>exp := Some (now + 30 * 60)\<rparr>) key
   \<and> (signup key created now uid h users d = (users', Inr r) \<longrightarrow>
        access_token r = create_access_token key now \<lparr>sub = Some uid, exp = None\<rparr>
                           (Some (timedelta_minutes ACCESS_TOKEN_EXPIRE_MINUTES)))
   \<and> (login key now v users l = Inr r' \<longrightarrow>
        (\<exists>u \<in> set users. access_token r' = create_access_token key now \<lparr>sub = Some (u_id u), exp = None\<rparr>
                           (Some (timedelta_minutes ACCESS_TOKEN_EXPIRE_MINUTES))))"
proof -
  have a: "create_access_token key now data None = jwt_encode (data\<lparr>exp := Some (now + 15 * 60)\<rparr>) key"
    by (simp add: create_access_token_def timedelta_minutes_def)
  have b: "create_access_token key now data (Some (timedelta_minutes ACCESS_TOKEN_EXPIRE_MINUTES))
       = jwt_encode (data\<lparr>exp := Some (now + 30 * 60)\<rparr>) key"
    by (simp add: create_access_token_def timedelta_minutes_def ACCESS_TOKEN_EXPIRE_MINUTES_def)
  have c: "signup key created now uid h users d = (users', Inr r) \<longrightarrow>
        access_token r = create_access_token key now \<lparr>sub = Some uid, exp = None\<rparr>
                           (Some (timedelta_minutes ACCESS_TOKEN_EXPIRE_MINUTES))"
    using signup_token(1)[of key created now uid h users d users' r] by (simp add: route_token)
  have d: "login key now v users l = Inr r' \<longrightarrow>
        (\<exists>u \<in> set users. access_token r' = create_access_token key now \<lparr>sub = Some (u_id u), exp = None\<rparr>
                           (Some (timedelta_minutes ACCESS_TOKEN_EXPIRE_MINUTES)))"
    using login_token[of key now v users l r'] by (simp add: route_token)
  show ?thesis using a b c d by blast
qed

lemma signup_conflict:
  assumes "\<exists>u \<in> set users. u_email u = uc_email d"
  shows "signup key c i uid h users d = (users, Inl (HTTPException 400 ''Email already registered''))"
proof -
  from assms obtain u where "u \<in> set users" "u_email u = uc_email d" by blast
  then obtain y where "find_user_by_email users (uc_email d) = Some y"
    unfolding find_user_by_email_def using find_ex[of u users "\<lambda>x. u_email x = uc_email d"] by auto
  then show ?thesis by (simp add: signup_def)
qed

lemma signup_registers:
  "\<exists>u \<in> set (fst (signup key c i uid h users d)). u_email u = uc_email d"
proof (cases "find_user_by_email users (uc_email d)")
  case None
  then show ?thesis by (simp add: signup_def Let_def)
next
  case (Some y)
  then have "y \<in> set users \<and> u_email y = uc_email d"
    unfolding find_user_by_email_def by (rule find_Some_mem)
  with Some show ?thesis by (auto simp: signup_def)
qed

text \<open>
  Claim C8. A signup whose email is the email of a stored user fails with the error
  ``Email already registered'' (status 400) and leaves the user store as it was; and of
  two signups with the same email, one after the other, the second fails so, whatever
  the first did.
\<close>

theorem signup_duplicate_email_conflict:
  "((\<exists>u \<in> set users. u_email u = uc_email d) \<longrightarrow>
      signup key c i uid h users d = (users, Inl (HTTPException 400 ''Email already registered'')))
   \<and> (uc_email d2 = uc_email d1 \<longrightarrow>
      signup key2 c2 i2 uid2 h2 (fst (signup key1 c1 i1 uid1 h1 users d1)) d2
        = (fst (signup key1 c1 i1 uid1 h1 users d1), Inl (HTTPException 400 ''Email already registered'')))"
proof -
  have a: "(\<exists>u \<in> set users. u_email u = uc_email d) \<longrightarrow>
      signup key c i uid h users d = (users, Inl (HTTPException 400 ''Email already registered''))"
    using signup_conflict by blast
  have b: "uc_email d2 = uc_email d1 \<longrightarrow>
      signup key2 c2 i2 uid2 h2 (fst (signup key1 c1 i1 uid1 h1 users d1)) d2
        = (fst (signup key1 c1 i1 uid1 h1 users d1), Inl (HTTPException 400 ''Email already registered''))"
  proof
    assume e: "uc_email d2 = uc_email d1"
    have "\<exists>u \<in> set (fst (signup key1 c1 i1 uid1 h1 users d1)). u_email u = uc_email d2"
      unfolding e by (rule signup_registers)
    then show "signup key2 c2 i2 uid2 h2 (fst (signup key1 c1 i1 uid1 h1 users d1)) d2
        = (fst (signup key1 c1 i1 uid1 h1 users d1), Inl (HTTPException 400 ''Email already registered''))"
      by (rule signup_conflict)
  qed
  show ?thesis using a b by blast
qed


lemma signup_alice:
  "signup ''k'' 5 7 ''u1'' (\<lambda>p. p) [] alice = ([alice_doc], Inr alice_response)"
  by (simp add: signup_def alice_def alice_doc_def alice_response_def find_user_by_email_def Let_def route_token)

text \<open>The scenario of the claim: a second signup of \<open>a@x.com\<close>.\<close>

theorem signup_duplicate_email_conflict_witness:
  "(\<exists>u \<in> set [alice_doc]. u_email u = uc_email alice)
   \<and> signup ''k'' 9 9 ''u2'' (\<lambda>p. p) [alice_doc] alice
      = ([alice_doc], Inl (HTTPException 400 ''Email already registered''))"
proof -
  have h: "\<exists>u \<in> set [alice_doc]. u_email u = uc_email alice"
    by (simp add: alice_doc_def alice_def)
  from signup_duplicate_email_conflict[where users = "[alice_doc]" and d = alice and key = "''k''"
         and c = 9 and i = 9 and uid = "''u2''" and h = "\<lambda>p. p"] h
  have "signup ''k'' 9 9 ''u2'' (\<lambda>p. p) [alice_doc] alice
      = ([alice_doc], Inl (HTTPException 400 ''Email already registered''))"
    by blast
  with h show ?thesis by blast
qed

theorem token_valid_for_30_minutes_witness:
  "signup ''k'' 5 7 ''u1'' (\<lambda>p. p) [] alice = ([alice_doc], Inr alice_response)
   \<and> (\<exists>c u. access_token alice_response = Signed ''k'' c \<and> exp c = Some (7 + 30 * 60)
           \<and> sub c = Some (u_id u)
           \<and> get_current_user ''k'' (7 + 29 * 60) [alice_doc] (Some (access_token alice_response)) = Inr u
           \<and> get_current_user ''k'' (7 + 31 * 60) [alice_doc] (Some (access_token alice_response))
               = Inl (HTTPException 401 ''Token expired'')
           \<and> (\<forall>now us. 7 + 30 * 60 \<le> now \<longrightarrow>
                 get_current_user ''k'' now us (Some (access_token alice_response))
                   = Inl (HTTPException 401 ''Token expired'')))"
proof
  show h: "signup ''k'' 5 7 ''u1'' (\<lambda>p. p) [] alice = ([alice_doc], Inr alice_response)"
    by (rule signup_alice)
  show "\<exists>c u. access_token alice_response = Signed ''k'' c \<and> exp c = Some (7 + 30 * 60)
           \<and> sub c = Some (u_id u)
           \<and> get_current_user ''k'' (7 + 29 * 60) [alice_doc] (Some (access_token alice_response)) = Inr u
           \<and> get_current_user ''k'' (7 + 31 * 60) [alice_doc] (Some (access_token alice_response))
               = Inl (HTTPException 401 ''Token expired'')
           \<and> (\<forall>now us. 7 + 30 * 60 \<le> now \<longrightarrow>
                 get_current_user ''k'' now us (Some (access_token alice_response))
                   = Inl (HTTPException 401 ''Token expired''))"
    by (rule token_valid_for_30_minutes[OF disjI1[OF h]])
qed

theorem create_access_token_default_15_minutes_witness:
  "signup ''k'' 5 7 ''u1'' (\<lambda>p. p) [] alice = ([alice_doc], Inr alice_response)
   \<and> access_token alice_response
       = create_access_token ''k'' 7 \<lparr>sub = Some ''u1'', exp = None\<rparr>
           (Some (timedelta_minutes ACCESS_TOKEN_EXPIRE_MINUTES))
   \<and> create_access_token ''k'' 7 \<lparr>sub = Some ''u1'', exp = None\<rparr> None
       = jwt_encode \<lparr>sub = Some ''u1'', exp = Some (7 + 15 * 60)\<rparr> ''k''"
proof -
  have h: "signup ''k'' 5 7 ''u1'' (\<lambda>p. p) [] alice = ([alice_doc], Inr alice_response)"
    by (rule signup_alice)
  note t = create_access_token_default_15_minutes[where key = "''k''" and now = 7
         and data = "\<lparr>sub = Some ''u1'', exp = None\<rparr>" and created = 5 and uid = "''u1''"
         and h = "\<lambda>p. p" and users = "[]" and d = alice and users' = "[alice_doc]"
         and r = alice_response]
  from t h have a: "access_token alice_response
       = create_access_token ''k'' 7 \<lparr>sub = Some ''u1'', exp = None\<rparr>
           (Some (timedelta_minutes ACCESS_TOKEN_EXPIRE_MINUTES))" by blast
  from t have b: "create_access_token ''k'' 7 \<lparr>sub = Some ''u1'', exp = None\<rparr> None
       = jwt_encode (\<lparr>sub = Some ''u1'', exp = None\<rparr>\<lparr>exp := Some (7 + 15 * 60)\<rparr>) ''k''" by blast
  from h a b show ?thesis by simp
qed

section \<open>Properties of the statistics\<close>

lemma count_category_sum:
  "sum_list (map snd (count_category kvs k)) = sum_list (map snd kvs) + 1"
  by (induction kvs) auto

lemma stats_loop_sum:
  "stats_loop lib today ts ov hp cats = Inr (ov', hp', cats') \<Longrightarrow>
     sum_list (map snd cats') = sum_list (map snd cats) + int (length ts)"
proof (induction ts arbitrary: ov hp cats)
  case Nil
  then show ?case by simp
next
  case (Cons t ts)
  from Cons.prems obtain b where b: "overdue_check lib today t = Inr b"
    by (cases "overdue_check lib today t") (simp_all add: Let_def)
  from Cons.prems b have
    "stats_loop lib today ts (if b then ov + 1 else ov)
       (if dict_get t ''priority'' = PStr ''high'' then hp + 1 else hp)
       (count_category cats (dict_get_default t ''category'' (PStr ''General'')))
     = Inr (ov', hp', cats')"
    by (simp add: Let_def)
  from Cons.IH[OF this] show ?case by (simp add: count_category_sum)
qed

text \<open>
  Claim C7. Whenever \<open>get_task_stats\<close> returns, the completed and the pending counts add
  up to the total, and the counts of the category breakdown add up to the total.
\<close>

theorem stats_counts_add_up:
  assumes "get_task_stats lib today store current_user = Inr st"
  shows "ts_completed st + ts_pending st = ts_total st
         \<and> sum_list (map ce_count (ts_categories st)) = ts_total st"
proof -
  let ?tasks = "take 1000 (filter (owned_by (u_id current_user)) store)"
  from assms obtain ov hp cats where
    loop: "stats_loop lib today ?tasks 0 0 [] = Inr (ov, hp, cats)"
    by (cases "stats_loop lib today ?tasks 0 0 []") (auto simp: get_task_stats_def Let_def)
  from assms loop have tot: "ts_total st = int (length ?tasks)"
    and pen: "ts_pending st = ts_total st - ts_completed st"
    and cat: "map ce_count (ts_categories st) = map snd cats"
    by (auto simp: get_task_stats_def Let_def split_beta)
  from stats_loop_sum[OF loop] have "sum_list (map snd cats) = int (length ?tasks)" by simp
  with tot pen cat show ?thesis by simp
qed

lemma scenario_stats_run:
  "get_task_stats iso_lib (Date 2024 1 1) scenario_store alice_doc = Inr scenario_stats"
  by (simp add: get_task_stats_def scenario_store_def example_task_def task_doc_def alice_doc_def
        owned_by_def overdue_check_def dict_get_def dict_get_default_def scenario_stats_def
        category_color_def category_colors_def)

text \<open>
  The statistics of three open tasks of one user, all in the category General.
\<close>

theorem stats_counts_add_up_witness:
  "get_task_stats iso_lib (Date 2024 1 1) scenario_store alice_doc = Inr scenario_stats
   \<and> ts_completed scenario_stats + ts_pending scenario_stats = ts_total scenario_stats
   \<and> sum_list (map ce_count (ts_categories scenario_stats)) = ts_total scenario_stats"
  using stats_counts_add_up[OF scenario_stats_run] scenario_stats_run by blast

section \<open>Properties of the response normalizer\<close>

lemma dict_get_setdefaults:
  "dict_get (setdefault (setdefault (setdefault task ''due_date'' PNone) ''priority'' p) ''category'' c) ''due_date''
     = dict_get task ''due_date''"
  by (simp add: dict_get_def setdefault_def split: option.splits)

lemma dict_get_default_setdefaults:
  "dict_get_default (setdefault (setdefault (setdefault task ''due_date'' PNone) ''priority'' p) ''category'' c) ''completed'' v
     = dict_get_default task ''completed'' v"
  by (simp add: dict_get_default_def setdefault_def split: option.splits)

lemma overdue_check_setdefaults:
  "overdue_check lib today (setdefault (setdefault (setdefault task ''due_date'' PNone) ''priority'' p) ''category'' c)
     = overdue_check lib today task"
  by (simp add: overdue_check_def dict_get_setdefaults dict_get_default_setdefaults)

lemma overdue_check_Inr:
  "overdue_check lib today task = Inr b \<Longrightarrow>
     b = (truthy (dict_get task ''due_date'')
          \<and> \<not> truthy (dict_get_default task ''completed'' (PBool False))
          \<and> (\<exists>d. due_date_of lib task = Some d \<and> date_lt d today))"
  by (auto simp: overdue_check_def due_date_of_def split: if_splits pyval.splits option.splits)

lemma prepare_is_overdue:
  assumes "prepare_task_for_response lib today task = Inr r"
  shows "\<exists>b. overdue_check lib today task = Inr b \<and> r ''is_overdue'' = Some (PBool b)"
proof -
  from assms obtain b where b: "overdue_check lib today task = Inr b"
    by (cases "overdue_check lib today task")
       (simp_all add: prepare_task_for_response_def Let_def overdue_check_setdefaults)
  from assms b have "r ''is_overdue'' = Some (PBool b)"
    by (auto simp: prepare_task_for_response_def Let_def overdue_check_setdefaults
          split: pyval.splits)
  with b show ?thesis by blast
qed

lemma set_fields_other: "k \<notin> fst ` set upd \<Longrightarrow> set_fields d upd k = d k"
  by (induction upd arbitrary: d) auto

lemma update_data_keys:
  "fst ` set (update_data_of lib tu)
     \<subseteq> {''title'', ''description'', ''due_date'', ''priority'', ''category'', ''completed''}"
  by (auto simp: update_data_of_def split: option.splits)

lemma update_one_key_absent:
  "k \<notin> fst ` set upd \<Longrightarrow> \<forall>d \<in> set store. d k = None \<Longrightarrow>
     \<forall>d \<in> set (update_one P upd store). d k = None"
  by (induction store) (auto simp: set_fields_other)

lemma update_task_store:
  "fst (update_task lib today now store cu tid tu) =
     (case find_one_task store tid (u_id cu) of
        None \<Rightarrow> store
      | Some e \<Rightarrow> if update_data_of lib tu \<noteq> []
                  then update_one (is_task tid (u_id cu))
                         (update_data_of lib tu @ [(''updated_at'', PDatetime now)]) store
                  else store)"
  by (simp add: update_task_def Let_def split: option.splits)

lemma setdefault_present: "d k \<noteq> None \<Longrightarrow> setdefault d k x = d"
  by (auto simp: setdefault_def)

lemma setdefault_lookup:
  "setdefault d k x k' = (if k' = k \<and> d k = None then Some x else d k')"
  by (auto simp: setdefault_def split: option.splits)

text \<open>What the normalizer returns, key by key.\<close>

lemma prepare_result:
  assumes "prepare_task_for_response lib today task = Inr r"
  shows "\<exists>b. overdue_check lib today task = Inr b
           \<and> r ''is_overdue'' = Some (PBool b)
           \<and> r ''due_date'' = Some (case dict_get task ''due_date'' of
                                      PDate d \<Rightarrow> PStr (date_isoformat lib d)
                                    | PDatetime t \<Rightarrow> PStr (datetime_isoformat lib t)
                                    | v \<Rightarrow> v)
           \<and> r ''priority'' = Some (dict_get_default task ''priority'' (PStr ''medium''))
           \<and> r ''category'' = Some (dict_get_default task ''category'' (PStr ''General''))
           \<and> r ''completed'' = task ''completed''"
proof -
  from assms obtain b where b: "overdue_check lib today task = Inr b"
    by (cases "overdue_check lib today task")
       (simp_all add: prepare_task_for_response_def Let_def overdue_check_setdefaults)
  let ?t3 = "setdefault (setdefault (setdefault task ''due_date'' PNone) ''priority'' (PStr ''medium''))
               ''category'' (PStr ''General'')"
  let ?t4 = "?t3(''is_overdue'' \<mapsto> PBool b)"
  have g: "dict_get ?t4 ''due_date'' = dict_get task ''due_date''"
    using dict_get_setdefaults[of task "PStr ''medium''" "PStr ''General''"]
    by (simp add: dict_get_def)
  from assms b have r: "r = (case dict_get task ''due_date'' of
                        PDate d \<Rightarrow> ?t4(''due_date'' \<mapsto> PStr (date_isoformat lib d))
                      | PDatetime t \<Rightarrow> ?t4(''due_date'' \<mapsto> PStr (datetime_isoformat lib t))
                      | _ \<Rightarrow> ?t4)"
    by (simp add: prepare_task_for_response_def Let_def overdue_check_setdefaults g)
  have 1: "r ''is_overdue'' = Some (PBool b)"
    unfolding r by (simp split: pyval.splits)
  have 2: "r ''due_date'' = Some (case dict_get task ''due_date'' of
                                      PDate d \<Rightarrow> PStr (date_isoformat lib d)
                                    | PDatetime t \<Rightarrow> PStr (datetime_isoformat lib t)
                                    | v \<Rightarrow> v)"
    unfolding r by (simp add: setdefault_lookup dict_get_def split: pyval.splits option.splits)
  have 3: "r ''priority'' = Some (dict_get_default task ''priority'' (PStr ''medium''))"
    unfolding r by (simp add: setdefault_lookup dict_get_default_def split: pyval.splits option.splits)
  have 4: "r ''category'' = Some (dict_get_default task ''category'' (PStr ''General''))"
    unfolding r by (simp add: setdefault_lookup dict_get_default_def split: pyval.splits option.splits)
  have 5: "r ''completed'' = task ''completed''"
    unfolding r by (simp add: setdefault_lookup split: pyval.splits)
  from b 1 2 3 4 5 show ?thesis by blast
qed

lemma prepare_fixed:
  assumes "r ''due_date'' = Some v" "\<forall>d. v \<noteq> PDate d" "\<forall>t. v \<noteq> PDatetime t"
    and "r ''priority'' \<noteq> None" "r ''category'' \<noteq> None"
    and "overdue_check lib today r = Inr b" "r ''is_overdue'' = Some (PBool b)"
  shows "prepare_task_for_response lib today r = Inr r"
proof -
  have s: "setdefault (setdefault (setdefault r ''due_date'' PNone) ''priority'' (PStr ''medium''))
               ''category'' (PStr ''General'') = r"
    using assms(1,4,5) by (simp add: setdefault_present)
  have u: "r(''is_overdue'' \<mapsto> PBool b) = r"
    using assms(7) by (simp add: fun_upd_idem)
  have g: "dict_get r ''due_date'' = v" using assms(1) by (simp add: dict_get_def)
  show ?thesis
    unfolding prepare_task_for_response_def Let_def s assms(6) using assms(2,3)
    by (simp add: u g split: pyval.splits)
qed

lemma overdue_check_again:
  assumes "overdue_check lib today task = Inr b"
    and "dict_get r ''due_date'' = (case dict_get task ''due_date'' of
                                      PDate d \<Rightarrow> PStr (date_isoformat lib d)
                                    | PDatetime t \<Rightarrow> PStr (datetime_isoformat lib t)
                                    | v \<Rightarrow> v)"
    and "dict_get_default r ''completed'' (PBool False) = dict_get_default task ''completed'' (PBool False)"
    and "\<forall>d. dict_get task ''due_date'' = PDate d \<longrightarrow>
           fromisoformat_date lib (date_isoformat lib d) = Some d \<and> date_isoformat lib d \<noteq> []"
  shows "overdue_check lib today r = Inr b"
proof (cases "dict_get task ''due_date''")
  case PNone
  with assms show ?thesis by (auto simp: overdue_check_def split: if_splits)
next
  case (PBool x)
  with assms show ?thesis by (auto simp: overdue_check_def split: if_splits)
next
  case (PStr s)
  with assms show ?thesis by (auto simp: overdue_check_def split: if_splits)
next
  case (PDate d)
  with assms show ?thesis by (auto simp: overdue_check_def split: if_splits)
next
  case (PDatetime t)
  with assms show ?thesis by (auto simp: overdue_check_def split: if_splits)
qed

text \<open>
  Claim C5. With the clock's date fixed, normalising the result of the normalizer gives
  that result again, and an error stays the same error. The result holds the defaults for
  the keys the record lacked (\<open>due_date\<close> null, \<open>priority\<close> medium, \<open>category\<close> General),
  the \<open>is_overdue\<close> flag, and a \<open>due_date\<close> that is no longer a date object. For a
  record whose \<open>due_date\<close> is a date object the library is taken to read back the string
  it writes for that date, a string that is not empty.
\<close>

theorem prepare_idempotent:
  assumes "\<forall>d. dict_get task ''due_date'' = PDate d \<longrightarrow>
             fromisoformat_date lib (date_isoformat lib d) = Some d \<and> date_isoformat lib d \<noteq> []"
  shows "(case prepare_task_for_response lib today task of
            Inl e \<Rightarrow> Inl e
          | Inr r \<Rightarrow> prepare_task_for_response lib today r)
         = prepare_task_for_response lib today task
       \<and> (\<forall>r. prepare_task_for_response lib today task = Inr r \<longrightarrow>
             (task ''due_date'' = None \<longrightarrow> r ''due_date'' = Some PNone)
           \<and> (task ''priority'' = None \<longrightarrow> r ''priority'' = Some (PStr ''medium''))
           \<and> (task ''category'' = None \<longrightarrow> r ''category'' = Some (PStr ''General''))
           \<and> (\<exists>b. r ''is_overdue'' = Some (PBool b))
           \<and> (\<forall>d. r ''due_date'' \<noteq> Some (PDate d)))"
proof
  show "(case prepare_task_for_response lib today task of
            Inl e \<Rightarrow> Inl e
          | Inr r \<Rightarrow> prepare_task_for_response lib today r)
         = prepare_task_for_response lib today task"
  proof (cases "prepare_task_for_response lib today task")
    case (Inl e)
    then show ?thesis by simp
  next
    case (Inr r)
    from prepare_result[OF Inr] obtain b where
      b: "overdue_check lib today task = Inr b"
      and o: "r ''is_overdue'' = Some (PBool b)"
      and d: "r ''due_date'' = Some (case dict_get task ''due_date'' of
                                      PDate d \<Rightarrow> PStr (date_isoformat lib d)
                                    | PDatetime t \<Rightarrow> PStr (datetime_isoformat lib t)
                                    | v \<Rightarrow> v)"
      and p: "r ''priority'' = Some (dict_get_default task ''priority'' (PStr ''medium''))"
      and c: "r ''category'' = Some (dict_get_default task ''category'' (PStr ''General''))"
      and m: "r ''completed'' = task ''completed''"
      by blast
    have d': "dict_get r ''due_date'' = (case dict_get task ''due_date'' of
                                      PDate d \<Rightarrow> PStr (date_isoformat lib d)
                                    | PDatetime t \<Rightarrow> PStr (datetime_isoformat lib t)
                                    | v \<Rightarrow> v)"
      using d by (simp add: dict_get_def)
    have m': "dict_get_default r ''completed'' (PBool False)
                = dict_get_default task ''completed'' (PBool False)"
      using m by (simp add: dict_get_default_def)
    have again: "overdue_check lib today r = Inr b"
      by (rule overdue_check_again[OF b d' m' assms])
    have nd: "\<forall>x. (case dict_get task ''due_date'' of
                                      PDate d \<Rightarrow> PStr (date_isoformat lib d)
                                    | PDatetime t \<Rightarrow> PStr (datetime_isoformat lib t)
                                    | v \<Rightarrow> v) \<noteq> PDate x"
      by (simp split: pyval.splits)
    have nt: "\<forall>x. (case dict_get task ''due_date'' of
                                      PDate d \<Rightarrow> PStr (date_isoformat lib d)
                                    | PDatetime t \<Rightarrow> PStr (datetime_isoformat lib t)
                                    | v \<Rightarrow> v) \<noteq> PDatetime x"
      by (simp split: pyval.splits)
    have "prepare_task_for_response lib today r = Inr r"
      by (rule prepare_fixed[OF d nd nt _ _ again o]) (simp_all add: p c)
    with Inr show ?thesis by simp
  qed
next
  show "\<forall>r. prepare_task_for_response lib today task = Inr r \<longrightarrow>
             (task ''due_date'' = None \<longrightarrow> r ''due_date'' = Some PNone)
           \<and> (task ''priority'' = None \<longrightarrow> r ''priority'' = Some (PStr ''medium''))
           \<and> (task ''category'' = None \<longrightarrow> r ''category'' = Some (PStr ''General''))
           \<and> (\<exists>b. r ''is_overdue'' = Some (PBool b))
           \<and> (\<forall>d. r ''due_date'' \<noteq> Some (PDate d))"
  proof (intro allI impI)
    fix r assume "prepare_task_for_response lib today task = Inr r"
    from prepare_result[OF this] show
      "(task ''due_date'' = None \<longrightarrow> r ''due_date'' = Some PNone)
           \<and> (task ''priority'' = None \<longrightarrow> r ''priority'' = Some (PStr ''medium''))
           \<and> (task ''category'' = None \<longrightarrow> r ''category'' = Some (PStr ''General''))
           \<and> (\<exists>b. r ''is_overdue'' = Some (PBool b))
           \<and> (\<forall>d. r ''due_date'' \<noteq> Some (PDate d))"
      by (auto simp: dict_get_def dict_get_default_def split: pyval.splits)
  qed
qed

text \<open>
  Claim C1. Whenever the normalizer returns, the \<open>is_overdue\<close> flag of its result is true
  exactly if the record's \<open>due_date\<close> is set (a value that counts as true), its
  \<open>completed\<close> flag does not count as true, and the date the \<open>due_date\<close> stands for is
  before the current date. The flag is not stored: a store none of whose documents has
  the key \<open>is_overdue\<close> is such a store again after \<open>create_task\<close> and after
  \<open>update_task\<close>.
\<close>

theorem is_overdue_computed_on_read:
  "(prepare_task_for_response lib today task = Inr r \<longrightarrow>
      r ''is_overdue'' =
        Some (PBool (truthy (dict_get task ''due_date'')
                     \<and> \<not> truthy (dict_get_default task ''completed'' (PBool False))
                     \<and> (\<exists>d. due_date_of lib task = Some d \<and> date_lt d today))))
   \<and> ((\<forall>d \<in> set store. d ''is_overdue'' = None) \<longrightarrow>
         (\<forall>d \<in> set (fst (create_task lib1 today1 now1 uuid4 store current_user task_data)).
            d ''is_overdue'' = None)
       \<and> (\<forall>d \<in> set (fst (update_task lib2 today2 now2 store current_user task_id task_update)).
            d ''is_overdue'' = None))"
proof (intro conjI impI)
  assume "prepare_task_for_response lib today task = Inr r"
  from prepare_is_overdue[OF this] obtain b where
    "overdue_check lib today task = Inr b" "r ''is_overdue'' = Some (PBool b)" by blast
  with overdue_check_Inr[of lib today task b] show
    "r ''is_overdue'' =
        Some (PBool (truthy (dict_get task ''due_date'')
                     \<and> \<not> truthy (dict_get_default task ''completed'' (PBool False))
                     \<and> (\<exists>d. due_date_of lib task = Some d \<and> date_lt d today)))"
    by simp
next
  assume s: "\<forall>d \<in> set store. d ''is_overdue'' = None"
  then show "\<forall>d \<in> set (fst (create_task lib1 today1 now1 uuid4 store current_user task_data)).
            d ''is_overdue'' = None"
    by (auto simp: create_task_def Let_def task_doc_def)
next
  assume s: "\<forall>d \<in> set store. d ''is_overdue'' = None"
  have k: "''is_overdue'' \<notin> fst ` set (update_data_of lib2 task_update @ [(''updated_at'', PDatetime now2)])"
    using update_data_keys[of lib2 task_update] by auto
  show "\<forall>d \<in> set (fst (update_task lib2 today2 now2 store current_user task_id task_update)).
            d ''is_overdue'' = None"
    unfolding update_task_store using s update_one_key_absent[OF k s]
    by (simp split: option.splits)
qed

lemma iso_2024_03_05:
  "ymd_isoformat (Date 2024 3 5) = ''2024-03-05''"
  "ymd_fromisoformat ''2024-03-05'' = Some (Date 2024 3 5)"
  by code_simp+

lemma due_task_due_date: "due_task ''due_date'' = Some (PStr ''2024-03-05'')"
  by (simp add: due_task_def task_doc_def iso_lib_def iso_2024_03_05 del: ymd_isoformat.simps)

lemma due_task_completed: "due_task ''completed'' = Some (PBool False)"
  by (simp add: due_task_def task_doc_def)

lemma due_task_prepared:
  "prepare_task_for_response iso_lib (Date 2024 3 6) due_task
     = Inr (due_task(''is_overdue'' \<mapsto> PBool True))"
proof -
  have o: "overdue_check iso_lib (Date 2024 3 6) due_task = Inr True"
    by (simp add: overdue_check_def dict_get_def dict_get_default_def due_task_due_date
          due_task_completed iso_lib_def iso_2024_03_05)
  have s: "setdefault (setdefault (setdefault due_task ''due_date'' PNone) ''priority'' (PStr ''medium''))
             ''category'' (PStr ''General'') = due_task"
    by (simp add: setdefault_present due_task_def task_doc_def)
  show ?thesis
    unfolding prepare_task_for_response_def Let_def s o
    by (simp add: dict_get_def due_task_due_date)
qed

text \<open>
  A task due on 2024-03-05 and not completed, served on 2024-03-06.
\<close>

theorem is_overdue_computed_on_read_witness:
  "prepare_task_for_response iso_lib (Date 2024 3 6) due_task
     = Inr (due_task(''is_overdue'' \<mapsto> PBool True))
   \<and> (truthy (dict_get due_task ''due_date'')
       \<and> \<not> truthy (dict_get_default due_task ''completed'' (PBool False))
       \<and> (\<exists>d. due_date_of iso_lib due_task = Some d \<and> date_lt d (Date 2024 3 6)))
   \<and> list_all (\<lambda>d. d ''is_overdue'' = None) scenario_store
   \<and> list_all (\<lambda>d. d ''is_overdue'' = None)
        (fst (update_task iso_lib (Date 2024 3 6) 9 scenario_store alice_doc ''t1''
                complete_update))"
proof -
  have h1: "prepare_task_for_response iso_lib (Date 2024 3 6) due_task
     = Inr (due_task(''is_overdue'' \<mapsto> PBool True))"
    by (rule due_task_prepared)
  have h2: "\<forall>d \<in> set scenario_store. d ''is_overdue'' = None"
    by (simp add: scenario_store_def example_task_def task_doc_def)
  note t = is_overdue_computed_on_read[where lib = iso_lib and today = "Date 2024 3 6"
      and task = due_task and r = "due_task(''is_overdue'' \<mapsto> PBool True)"
      and store = scenario_store and ?lib2.0 = iso_lib and ?today2.0 = "Date 2024 3 6"
      and ?now2.0 = 9 and current_user = alice_doc and task_id = "''t1''"
      and task_update = complete_update]
  from t h1 have a: "truthy (dict_get due_task ''due_date'')
       \<and> \<not> truthy (dict_get_default due_task ''completed'' (PBool False))
       \<and> (\<exists>d. due_date_of iso_lib due_task = Some d \<and> date_lt d (Date 2024 3 6))"
    by simp
  from t h2 have b: "\<forall>d \<in> set (fst (update_task iso_lib (Date 2024 3 6) 9 scenario_store alice_doc ''t1''
                          complete_update)). d ''is_overdue'' = None"
    by blast
  from h1 a h2 b show ?thesis by (simp only: list_all_iff simp_thms)
qed

lemma legacy_task_due_date: "dict_get legacy_task ''due_date'' = PDate (Date 2024 3 5)"
  by (simp add: legacy_task_def dict_get_def)

text \<open>
  A record from before the newer fields, with a date object as its due date.
\<close>

theorem prepare_idempotent_witness:
  "dict_get legacy_task ''due_date'' = PDate (Date 2024 3 5)
   \<and> fromisoformat_date iso_lib (date_isoformat iso_lib (Date 2024 3 5)) = Some (Date 2024 3 5)
   \<and> date_isoformat iso_lib (Date 2024 3 5) \<noteq> []
   \<and> (case prepare_task_for_response iso_lib (Date 2024 3 6) legacy_task of
            Inl e \<Rightarrow> Inl e
          | Inr r \<Rightarrow> prepare_task_for_response iso_lib (Date 2024 3 6) r)
         = prepare_task_for_response iso_lib (Date 2024 3 6) legacy_task
   \<and> (\<exists>r. prepare_task_for_response iso_lib (Date 2024 3 6) legacy_task = Inr r)"
proof -
  have i: "fromisoformat_date iso_lib (date_isoformat iso_lib (Date 2024 3 5)) = Some (Date 2024 3 5)"
    "date_isoformat iso_lib (Date 2024 3 5) \<noteq> []"
    by (simp_all add: iso_lib_def iso_2024_03_05 del: ymd_isoformat.simps)
  have h: "\<forall>d. dict_get legacy_task ''due_date'' = PDate d \<longrightarrow>
       fromisoformat_date iso_lib (date_isoformat iso_lib d) = Some d
       \<and> date_isoformat iso_lib d \<noteq> []"
    using i by (simp add: legacy_task_due_date)
  have c: "dict_get_default legacy_task ''completed'' (PBool False) = PBool False"
    by (simp add: legacy_task_def dict_get_default_def)
  have o: "overdue_check iso_lib (Date 2024 3 6) legacy_task = Inr True"
    by (simp add: overdue_check_def legacy_task_due_date c)
  have e: "\<exists>r. prepare_task_for_response iso_lib (Date 2024 3 6) legacy_task = Inr r"
    by (simp add: prepare_task_for_response_def Let_def overdue_check_setdefaults o)
  from prepare_idempotent[OF h, of "Date 2024 3 6"] legacy_task_due_date i e show ?thesis by blast
qed

section \<open>Properties of the partial update\<close>

lemma update_data_empty: "update_data_of lib tu = [] \<longleftrightarrow> supplies_nothing tu"
  by (auto simp: update_data_of_def supplies_nothing_def split: option.splits)

lemma set_fields_cases:
  "set_fields d upd k = d k \<or> (\<exists>v. (k, v) \<in> set upd \<and> set_fields d upd k = Some v)"
proof (induction upd arbitrary: d)
  case Nil
  then show ?case by simp
next
  case (Cons kv upd)
  obtain k' v' where kv: "kv = (k', v')" by (cases kv)
  have s: "set_fields d (kv # upd) k = set_fields (d(k' \<mapsto> v')) upd k"
    by (simp add: kv)
  from Cons.IH[of "d(k' \<mapsto> v')"] consider
      (a) "set_fields (d(k' \<mapsto> v')) upd k = (d(k' \<mapsto> v')) k"
    | (b) v where "(k, v) \<in> set upd" "set_fields (d(k' \<mapsto> v')) upd k = Some v"
    by blast
  then show ?case
  proof cases
    case a
    show ?thesis
    proof (cases "k = k'")
      case True
      then have "(k, v') \<in> set (kv # upd) \<and> set_fields d (kv # upd) k = Some v'"
        using a s kv by simp
      then show ?thesis by blast
    next
      case False
      then have "set_fields d (kv # upd) k = d k" using a s by simp
      then show ?thesis by blast
    qed
  next
    case b
    then have "(k, v) \<in> set (kv # upd) \<and> set_fields d (kv # upd) k = Some v"
      using s by simp
    then show ?thesis by blast
  qed
qed

lemma set_fields_last: "set_fields d (upd @ [(k, v)]) k = Some v"
  by (induction upd arbitrary: d) auto

lemma is_task_set_fields:
  "''id'' \<notin> fst ` set upd \<Longrightarrow> ''user_id'' \<notin> fst ` set upd \<Longrightarrow>
     is_task tid uid (set_fields d upd) = is_task tid uid d"
  by (simp add: is_task_def owned_by_def set_fields_other)

lemma find_update_one:
  assumes "find P store = Some e" "P (set_fields e upd)"
  shows "find P (update_one P upd store) = Some (set_fields e upd)"
  using assms by (induction store) (auto split: if_splits)

lemma update_keys_not_id:
  "''id'' \<notin> fst ` set (update_data_of lib tu @ [(''updated_at'', PDatetime now)])"
  "''user_id'' \<notin> fst ` set (update_data_of lib tu @ [(''updated_at'', PDatetime now)])"
  using update_data_keys[of lib tu] by auto

text \<open>The stored task after an update that finds it.\<close>

lemma update_task_found:
  assumes "find_one_task store tid (u_id cu) = Some old"
  shows "find_one_task (fst (update_task lib today now store cu tid tu)) tid (u_id cu)
           = Some (if supplies_nothing tu then old
                   else set_fields old (update_data_of lib tu @ [(''updated_at'', PDatetime now)]))"
proof (cases "supplies_nothing tu")
  case True
  then show ?thesis using assms by (simp add: update_task_store update_data_empty)
next
  case False
  let ?upd = "update_data_of lib tu @ [(''updated_at'', PDatetime now)]"
  from assms have f: "find (is_task tid (u_id cu)) store = Some old"
    by (simp add: find_one_task_def)
  then have "is_task tid (u_id cu) old" using find_Some_mem by fastforce
  then have p: "is_task tid (u_id cu) (set_fields old ?upd)"
    using is_task_set_fields[OF update_keys_not_id] by simp
  from find_update_one[OF f p] False assms show ?thesis
    by (simp add: update_task_store update_data_empty find_one_task_def)
qed

text \<open>
  Claim C4, as the code has it. For a task that exists, an update that supplies no field
  (every field absent or null) leaves the store, and with it \<open>updated_at\<close>, as it was; an
  update that supplies at least one field sets \<open>updated_at\<close> to the clock reading, whether
  or not a supplied value differs from the stored one.
\<close>

theorem update_refreshes_updated_at_when_supplied:
  assumes "find_one_task store task_id (u_id current_user) = Some existing_task"
  shows "(supplies_nothing task_update \<longrightarrow>
            fst (update_task lib today now store current_user task_id task_update) = store)
       \<and> (\<not> supplies_nothing task_update \<longrightarrow>
            (\<exists>updated. find_one_task (fst (update_task lib today now store current_user task_id task_update))
                          task_id (u_id current_user) = Some updated
                      \<and> updated ''updated_at'' = Some (PDatetime now)))"
proof (intro conjI impI)
  assume "supplies_nothing task_update"
  then show "fst (update_task lib today now store current_user task_id task_update) = store"
    using assms by (simp add: update_task_store update_data_empty)
next
  assume n: "\<not> supplies_nothing task_update"
  from update_task_found[OF assms, of lib today now task_update] n
  show "\<exists>updated. find_one_task (fst (update_task lib today now store current_user task_id task_update))
                          task_id (u_id current_user) = Some updated
                      \<and> updated ''updated_at'' = Some (PDatetime now)"
    by (simp add: set_fields_last)
qed

lemma update_data_values:
  "(k, v) \<in> set (update_data_of lib tu @ [(''updated_at'', PDatetime now)]) \<Longrightarrow> v \<noteq> PNone"
  by (auto simp: update_data_of_def split: option.splits)

lemma update_data_not_supplied:
  "tu_title tu = None \<Longrightarrow> (''title'', v) \<notin> set (update_data_of lib tu @ [(''updated_at'', PDatetime now)])"
  "tu_description tu = None \<Longrightarrow> (''description'', v) \<notin> set (update_data_of lib tu @ [(''updated_at'', PDatetime now)])"
  "tu_due_date tu = None \<Longrightarrow> (''due_date'', v) \<notin> set (update_data_of lib tu @ [(''updated_at'', PDatetime now)])"
  "tu_priority tu = None \<Longrightarrow> (''priority'', v) \<notin> set (update_data_of lib tu @ [(''updated_at'', PDatetime now)])"
  "tu_category tu = None \<Longrightarrow> (''category'', v) \<notin> set (update_data_of lib tu @ [(''updated_at'', PDatetime now)])"
  "tu_completed tu = None \<Longrightarrow> (''completed'', v) \<notin> set (update_data_of lib tu @ [(''updated_at'', PDatetime now)])"
  by (simp_all add: update_data_of_def split: option.splits)

lemma updated_field:
  assumes "updated = (if supplies_nothing tu then old
                      else set_fields old (update_data_of lib tu @ [(''updated_at'', PDatetime now)]))"
  shows "updated k = old k
         \<or> (\<exists>v. (k, v) \<in> set (update_data_of lib tu @ [(''updated_at'', PDatetime now)])
                \<and> updated k = Some v)"
  using assms set_fields_cases[of old "update_data_of lib tu @ [(''updated_at'', PDatetime now)]" k]
  by (cases "supplies_nothing tu") simp_all

text \<open>
  Claim C10. After an update of a task that exists, every field that the request left
  absent or null is as it was stored; no key of the stored task is absent or null unless
  it was so before; and a \<open>due_date\<close> that was set is still set.
\<close>

theorem update_never_clears_a_field:
  assumes "find_one_task store task_id (u_id current_user) = Some existing_task"
  shows "\<exists>updated.
           find_one_task (fst (update_task lib today now store current_user task_id task_update))
             task_id (u_id current_user) = Some updated
         \<and> (tu_title task_update = None \<longrightarrow> updated ''title'' = existing_task ''title'')
         \<and> (tu_description task_update = None \<longrightarrow>
              updated ''description'' = existing_task ''description'')
         \<and> (tu_due_date task_update = None \<longrightarrow> updated ''due_date'' = existing_task ''due_date'')
         \<and> (tu_priority task_update = None \<longrightarrow> updated ''priority'' = existing_task ''priority'')
         \<and> (tu_category task_update = None \<longrightarrow> updated ''category'' = existing_task ''category'')
         \<and> (tu_completed task_update = None \<longrightarrow>
              updated ''completed'' = existing_task ''completed'')
         \<and> (\<forall>k. updated k = None \<or> updated k = Some PNone \<longrightarrow> existing_task k = updated k)
         \<and> (existing_task ''due_date'' \<noteq> None \<and> existing_task ''due_date'' \<noteq> Some PNone \<longrightarrow>
              updated ''due_date'' \<noteq> None \<and> updated ''due_date'' \<noteq> Some PNone)"
proof -
  let ?upd = "update_data_of lib task_update @ [(''updated_at'', PDatetime now)]"
  define updated where
    "updated = (if supplies_nothing task_update then existing_task
                else set_fields existing_task ?upd)"
  have f: "find_one_task (fst (update_task lib today now store current_user task_id task_update))
             task_id (u_id current_user) = Some updated"
    unfolding updated_def by (rule update_task_found[OF assms])
  note c = updated_field[OF updated_def]
  note s = update_data_not_supplied[of task_update _ lib now]
  have k1: "tu_title task_update = None \<longrightarrow> updated ''title'' = existing_task ''title''"
    using c[of "''title''"] s(1) by blast
  have k2: "tu_description task_update = None \<longrightarrow>
              updated ''description'' = existing_task ''description''"
    using c[of "''description''"] s(2) by blast
  have k3: "tu_due_date task_update = None \<longrightarrow> updated ''due_date'' = existing_task ''due_date''"
    using c[of "''due_date''"] s(3) by blast
  have k4: "tu_priority task_update = None \<longrightarrow> updated ''priority'' = existing_task ''priority''"
    using c[of "''priority''"] s(4) by blast
  have k5: "tu_category task_update = None \<longrightarrow> updated ''category'' = existing_task ''category''"
    using c[of "''category''"] s(5) by blast
  have k6: "tu_completed task_update = None \<longrightarrow>
              updated ''completed'' = existing_task ''completed''"
    using c[of "''completed''"] s(6) by blast
  have k7: "\<forall>k. updated k = None \<or> updated k = Some PNone \<longrightarrow> existing_task k = updated k"
  proof (intro allI impI)
    fix k assume n: "updated k = None \<or> updated k = Some PNone"
    from c[of k] show "existing_task k = updated k"
    proof
      assume "updated k = existing_task k"
      then show ?thesis by simp
    next
      assume "\<exists>v. (k, v) \<in> set ?upd \<and> updated k = Some v"
      then obtain v where "(k, v) \<in> set ?upd" "updated k = Some v" by blast
      with n update_data_values[of k v lib task_update now] show ?thesis by simp
    qed
  qed
  have k8: "existing_task ''due_date'' \<noteq> None \<and> existing_task ''due_date'' \<noteq> Some PNone \<longrightarrow>
              updated ''due_date'' \<noteq> None \<and> updated ''due_date'' \<noteq> Some PNone"
  proof (intro impI)
    assume e: "existing_task ''due_date'' \<noteq> None \<and> existing_task ''due_date'' \<noteq> Some PNone"
    from k7 have "updated ''due_date'' = None \<or> updated ''due_date'' = Some PNone \<longrightarrow>
                   existing_task ''due_date'' = updated ''due_date''" by (rule spec)
    with e show "updated ''due_date'' \<noteq> None \<and> updated ''due_date'' \<noteq> Some PNone"
      by auto
  qed
  show ?thesis
    by (rule exI[of _ updated], intro conjI)
       (rule f, rule k1, rule k2, rule k3, rule k4, rule k5, rule k6, rule k7, rule k8)
qed

lemma scenario_find_t1:
  "find_one_task scenario_store ''t1'' (u_id alice_doc) = Some (example_task ''t1'' ''low'' 1)"
  by (simp add: find_one_task_def scenario_store_def is_task_def owned_by_def example_task_def
        task_doc_def alice_doc_def)

lemma scenario_t1_fields:
  "example_task ''t1'' ''low'' 1 ''title'' = Some (PStr ''t1'')"
  "example_task ''t1'' ''low'' 1 ''updated_at'' = Some (PDatetime 1)"
  by (simp_all add: example_task_def task_doc_def)

lemma same_title_not_nothing: "\<not> supplies_nothing same_title_update"
  by (simp add: supplies_nothing_def same_title_update_def)

lemma same_title_data: "update_data_of iso_lib same_title_update = [(''title'', PStr ''t1'')]"
  by (simp add: update_data_of_def same_title_update_def)

text \<open>
  The claim as written says more: that \<open>updated_at\<close> is refreshed only if a value
  changed. The task
  \<open>t1\<close> has the title \<open>t1\<close> and \<open>updated_at\<close> 1; an update at time 9 that supplies only the
  title \<open>t1\<close> again leaves the title as it was and sets \<open>updated_at\<close> to 9.
\<close>

theorem update_with_equal_value_refreshes_updated_at:
  "find_one_task scenario_store ''t1'' (u_id alice_doc) = Some (example_task ''t1'' ''low'' 1)
   \<and> example_task ''t1'' ''low'' 1 ''title'' = Some (PStr ''t1'')
   \<and> example_task ''t1'' ''low'' 1 ''updated_at'' = Some (PDatetime 1)
   \<and> update_data_of iso_lib same_title_update = [(''title'', PStr ''t1'')]
   \<and> find_one_task
        (fst (update_task iso_lib (Date 2024 3 6) 9 scenario_store alice_doc ''t1'' same_title_update))
        ''t1'' (u_id alice_doc)
      = Some ((example_task ''t1'' ''low'' 1)(''title'' \<mapsto> PStr ''t1'', ''updated_at'' \<mapsto> PDatetime 9))"
proof -
  have "find_one_task
        (fst (update_task iso_lib (Date 2024 3 6) 9 scenario_store alice_doc ''t1'' same_title_update))
        ''t1'' (u_id alice_doc)
      = Some ((example_task ''t1'' ''low'' 1)(''title'' \<mapsto> PStr ''t1'', ''updated_at'' \<mapsto> PDatetime 9))"
    unfolding update_task_found[OF scenario_find_t1]
    by (simp add: same_title_not_nothing same_title_data)
  with scenario_find_t1 scenario_t1_fields same_title_data show ?thesis by blast
qed

theorem update_refreshes_updated_at_when_supplied_witness:
  "find_one_task scenario_store ''t1'' (u_id alice_doc) = Some (example_task ''t1'' ''low'' 1)
   \<and> supplies_nothing \<lparr>tu_title = None, tu_description = None, tu_due_date = None,
                        tu_priority = None, tu_category = None, tu_completed = None\<rparr>
   \<and> fst (update_task iso_lib (Date 2024 3 6) 9 scenario_store alice_doc ''t1''
             \<lparr>tu_title = None, tu_description = None, tu_due_date = None,
              tu_priority = None, tu_category = None, tu_completed = None\<rparr>) = scenario_store
   \<and> \<not> supplies_nothing complete_update
   \<and> (\<exists>updated. find_one_task
                    (fst (update_task iso_lib (Date 2024 3 6) 9 scenario_store alice_doc ''t1''
                            complete_update))
                    ''t1'' (u_id alice_doc) = Some updated
                \<and> updated ''updated_at'' = Some (PDatetime 9))"
proof -
  have n: "supplies_nothing \<lparr>tu_title = None, tu_description = None, tu_due_date = None,
                        tu_priority = None, tu_category = None, tu_completed = None\<rparr>"
    by (simp add: supplies_nothing_def)
  have c: "\<not> supplies_nothing complete_update"
    by (simp add: supplies_nothing_def complete_update_def)
  note t = update_refreshes_updated_at_when_supplied[OF scenario_find_t1, of _ iso_lib "Date 2024 3 6" 9]
  from t[of "\<lparr>tu_title = None, tu_description = None, tu_due_date = None,
                        tu_priority = None, tu_category = None, tu_completed = None\<rparr>"] n
  have a: "fst (update_task iso_lib (Date 2024 3 6) 9 scenario_store alice_doc ''t1''
             \<lparr>tu_title = None, tu_description = None, tu_due_date = None,
              tu_priority = None, tu_category = None, tu_completed = None\<rparr>) = scenario_store"
    by blast
  from t[of complete_update] c
  have b: "\<exists>updated. find_one_task
                    (fst (update_task iso_lib (Date 2024 3 6) 9 scenario_store alice_doc ''t1''
                            complete_update))
                    ''t1'' (u_id alice_doc) = Some updated
                \<and> updated ''updated_at'' = Some (PDatetime 9)"
    by blast
  from scenario_find_t1 n a c b show ?thesis by blast
qed

lemma find_due_task: "find_one_task [due_task] ''t9'' (u_id alice_doc) = Some due_task"
  by (simp add: find_one_task_def is_task_def owned_by_def due_task_def task_doc_def alice_doc_def)

text \<open>
  Marking a task with a due date as completed keeps the due date.
\<close>

theorem update_never_clears_a_field_witness:
  "find_one_task [due_task] ''t9'' (u_id alice_doc) = Some due_task
   \<and> due_task ''due_date'' = Some (PStr ''2024-03-05'')
   \<and> tu_due_date complete_update = None
   \<and> (\<exists>updated.
         find_one_task (fst (update_task iso_lib (Date 2024 3 6) 9 [due_task] alice_doc ''t9''
                               complete_update))
           ''t9'' (u_id alice_doc) = Some updated
         \<and> updated ''due_date'' = Some (PStr ''2024-03-05''))"
proof -
  have n: "tu_due_date complete_update = None" by (simp add: complete_update_def)
  from update_never_clears_a_field[OF find_due_task, of iso_lib "Date 2024 3 6" 9 complete_update]
  obtain updated where
    "find_one_task (fst (update_task iso_lib (Date 2024 3 6) 9 [due_task] alice_doc ''t9''
                               complete_update))
           ''t9'' (u_id alice_doc) = Some updated"
    "tu_due_date complete_update = None \<longrightarrow> updated ''due_date'' = due_task ''due_date''"
    by auto
  with n due_task_due_date find_due_task show ?thesis by auto
qed

section \<open>Properties of the priority sort\<close>

lemma set_insert_by: "set (insert_by before x xs) = insert x (set xs)"
  by (induction xs) auto




lemma sorted_insert_by:
  assumes total: "\<And>a b. before a b \<or> before b a"
    and trans: "\<And>a b c. before a b \<Longrightarrow> before b c \<Longrightarrow> before a c"
  shows "sorted_wrt before xs \<Longrightarrow> sorted_wrt before (insert_by before x xs)"
proof (induction xs)
  case Nil
  then show ?case by simp
next
  case (Cons y ys)
  show ?case
  proof (cases "before x y")
    case True
    with Cons.prems trans show ?thesis by auto
  next
    case False
    with total have "before y x" by blast
    with Cons False show ?thesis by (auto simp: set_insert_by)
  qed
qed

lemma sorted_mongo_sort:
  assumes "\<And>a b. before a b \<or> before b a"
    and "\<And>a b c. before a b \<Longrightarrow> before b c \<Longrightarrow> before a c"
  shows "sorted_wrt before (mongo_sort before xs)"
  by (induction xs) (auto intro: sorted_insert_by[OF assms])

lemma date_lt_asym: "date_lt a b \<Longrightarrow> \<not> date_lt b a"
  by (cases a; cases b) auto

lemma date_lt_trans: "\<not> date_lt b a \<Longrightarrow> \<not> date_lt c b \<Longrightarrow> \<not> date_lt c a"
  by (cases a; cases b; cases c) auto

lemma bson_le_total: "bson_le a b \<or> bson_le b a"
  by (cases "(a, b)" rule: bson_le.cases) (auto dest: date_lt_asym)

lemma bson_le_rank: "bson_le a b \<Longrightarrow> bson_rank a \<le> bson_rank b"
  by (cases "(a, b)" rule: bson_le.cases) auto

lemma bson_rank_le: "bson_rank a < bson_rank b \<Longrightarrow> bson_le a b"
  by (cases "(a, b)" rule: bson_le.cases) auto

lemma bson_le_trans:
  assumes "bson_le a b" "bson_le b c"
  shows "bson_le a c"
proof (cases "bson_rank a < bson_rank c")
  case True
  then show ?thesis by (rule bson_rank_le)
next
  case False
  with bson_le_rank[OF assms(1)] bson_le_rank[OF assms(2)]
  have r: "bson_rank a = bson_rank b" "bson_rank b = bson_rank c" by simp_all
  show ?thesis
  proof (cases "bson_rank b = 0")
    case True
    with r have "bson_rank a = 0" "bson_rank c = 0" by simp_all
    then show ?thesis by (cases "(a, c)" rule: bson_le.cases) auto
  next
    case False
    with r assms show ?thesis
      by (cases "(a, b)" rule: bson_le.cases; cases "(b, c)" rule: bson_le.cases)
         (auto dest: date_lt_trans)
  qed
qed

lemma priority_before_total: "priority_before dir a b \<or> priority_before dir b a"
  using bson_le_total[of "a ''created_at''" "b ''created_at''"]
  by (auto simp: priority_before_def)

lemma priority_before_trans:
  assumes "priority_before dir a b" "priority_before dir b c"
  shows "priority_before dir a c"
proof (cases "priority_order a = priority_order b \<and> priority_order b = priority_order c")
  case True
  with assms have "bson_le (b ''created_at'') (a ''created_at'')"
    "bson_le (c ''created_at'') (b ''created_at'')"
    by (simp_all add: priority_before_def)
  from bson_le_trans[OF this(2) this(1)] True show ?thesis
    by (simp add: priority_before_def)
next
  case False
  with assms show ?thesis
    by (auto simp: priority_before_def split: if_splits)
qed

lemma sorted_priority:
  "sorted_wrt (priority_before dir) (take n (mongo_sort (priority_before dir) xs))"
  by (rule sorted_wrt_take) (rule sorted_mongo_sort[OF priority_before_total priority_before_trans])

lemma prepare_all_list_all2:
  "prepare_all lib today tasks = Inr rs \<Longrightarrow>
     list_all2 (\<lambda>t r. prepare_task_for_response lib today t = Inr r) tasks rs"
proof (induction tasks arbitrary: rs)
  case Nil
  then show ?case by simp
next
  case (Cons t ts)
  from Cons.prems obtain r where r: "prepare_task_for_response lib today t = Inr r"
    by (cases "prepare_task_for_response lib today t") simp_all
  from Cons.prems r obtain rs' where rs': "prepare_all lib today ts = Inr rs'"
    by (cases "prepare_all lib today ts") simp_all
  from Cons.prems r rs' have "rs = r # rs'" by simp
  with r Cons.IH[OF rs'] show ?case by simp
qed

lemma get_tasks_docs_priority:
  assumes "get_tasks_docs regex store cu completed search category priority (Some ''priority'') sort_order
             = Inr tasks"
  shows "sorted_wrt (priority_before (if sort_order = Some ''asc'' then 1 else - 1)) tasks"
proof -
  let ?q = "build_query (u_id cu) completed search category priority"
  from assms obtain matched where m: "mongo_find regex ?q store = Inr matched"
    by (cases "mongo_find regex ?q store") (simp_all add: get_tasks_docs_def Let_def)
  from assms m have "tasks = take 1000 (mongo_sort (priority_before (if sort_order = Some ''asc'' then 1 else - 1)) matched)"
    by (simp add: get_tasks_docs_def Let_def)
  then show ?thesis by (simp only: sorted_priority)
qed

text \<open>
  Claim C2, as the code has it. With \<open>sort_by = priority\<close> the tasks are read in the order
  of the ordinal \<open>priority_order\<close> (high 3, medium 2, low 1, anything else 0) in the
  requested direction: rising for \<open>asc\<close>, so low before medium before high, and falling
  otherwise, so high before medium before low. Among tasks of equal ordinal the later
  \<open>created_at\<close> comes first in both directions. The responses are the normalised tasks
  in that order.
\<close>

theorem priority_sort_follows_direction:
  assumes "get_tasks lib regex today store current_user completed search category priority
             (Some ''priority'') sort_order = Inr response_tasks"
  shows "\<exists>tasks.
           get_tasks_docs regex store current_user completed search category priority
             (Some ''priority'') sort_order = Inr tasks
         \<and> list_all2 (\<lambda>t r. prepare_task_for_response lib today t = Inr r) tasks response_tasks
         \<and> (sort_order = Some ''asc'' \<longrightarrow>
              sorted_wrt (\<lambda>a b. priority_order a \<le> priority_order b) tasks)
         \<and> (sort_order \<noteq> Some ''asc'' \<longrightarrow>
              sorted_wrt (\<lambda>a b. priority_order b \<le> priority_order a) tasks)
         \<and> sorted_wrt (\<lambda>a b. priority_order a = priority_order b \<longrightarrow>
                              bson_le (b ''created_at'') (a ''created_at'')) tasks"
proof -
  from assms obtain tasks where
    t: "get_tasks_docs regex store current_user completed search category priority
             (Some ''priority'') sort_order = Inr tasks"
    by (cases "get_tasks_docs regex store current_user completed search category priority
             (Some ''priority'') sort_order") (simp_all add: get_tasks_def)
  from assms t have p: "prepare_all lib today tasks = Inr response_tasks"
    by (simp add: get_tasks_def)
  note s = get_tasks_docs_priority[OF t]
  have a: "sort_order = Some ''asc'' \<longrightarrow>
              sorted_wrt (\<lambda>a b. priority_order a \<le> priority_order b) tasks"
  proof
    assume "sort_order = Some ''asc''"
    with s have "sorted_wrt (priority_before 1) tasks" by simp
    then show "sorted_wrt (\<lambda>a b. priority_order a \<le> priority_order b) tasks"
      by (rule sorted_wrt_mono_rel[rotated]) (auto simp: priority_before_def split: if_splits)
  qed
  have b: "sort_order \<noteq> Some ''asc'' \<longrightarrow>
              sorted_wrt (\<lambda>a b. priority_order b \<le> priority_order a) tasks"
  proof
    assume "sort_order \<noteq> Some ''asc''"
    with s have "sorted_wrt (priority_before (- 1)) tasks" by simp
    then show "sorted_wrt (\<lambda>a b. priority_order b \<le> priority_order a) tasks"
      by (rule sorted_wrt_mono_rel[rotated]) (auto simp: priority_before_def split: if_splits)
  qed
  have c: "sorted_wrt (\<lambda>a b. priority_order a = priority_order b \<longrightarrow>
                              bson_le (b ''created_at'') (a ''created_at'')) tasks"
    using s by (rule sorted_wrt_mono_rel[rotated]) (auto simp: priority_before_def split: if_splits)
  show ?thesis
    by (rule exI[of _ tasks], intro conjI)
       (rule t, rule prepare_all_list_all2[OF p], rule a, rule b, rule c)
qed

lemma example_task_fields:
  "example_task i p c ''priority'' = Some (PStr p)"
  "example_task i p c ''user_id'' = Some (PStr ''u1'')"
  "example_task i p c ''created_at'' = Some (PDatetime c)"
  "example_task i p c ''due_date'' = Some PNone"
  "example_task i p c ''category'' = Some (PStr ''General'')"
  "example_task i p c ''title'' = Some (PStr i)"
  "example_task i p c ''description'' = Some (PStr [])"
  "example_task i p c ''id'' = Some (PStr i)"
  by (simp_all add: example_task_def task_doc_def alice_doc_def)

lemma scenario_priorities:
  "priority_order (example_task ''t1'' ''low'' 1) = 1"
  "priority_order (example_task ''t2'' ''high'' 2) = 3"
  "priority_order (example_task ''t3'' ''medium'' 3) = 2"
  by (simp_all add: priority_order_def example_task_fields)

lemma scenario_found:
  "mongo_find regex (build_query (u_id alice_doc) None None None None) scenario_store
     = Inr scenario_store"
  by (simp add: mongo_find_def build_query_def if_given_def matches_exact_def owned_by_def
        scenario_store_def example_task_fields alice_doc_def)

text \<open>
  The claim as written has \<open>asc\<close> too return high before medium before low. For the
  tasks of
  priority low, high, medium created in this order, \<open>sort_by = priority\<close> with
  \<open>sort_order = asc\<close> reads them as low, medium, high.
\<close>

theorem priority_sort_ascending_returns_low_first:
  "get_tasks_docs dot_regex scenario_store alice_doc None None None None (Some ''priority'') (Some ''asc'')
     = Inr [example_task ''t1'' ''low'' 1, example_task ''t3'' ''medium'' 3, example_task ''t2'' ''high'' 2]
   \<and> priority_order (example_task ''t1'' ''low'' 1) = 1
   \<and> priority_order (example_task ''t3'' ''medium'' 3) = 2
   \<and> priority_order (example_task ''t2'' ''high'' 2) = 3"
proof -
  have "get_tasks_docs dot_regex scenario_store alice_doc None None None None (Some ''priority'') (Some ''asc'')
     = Inr [example_task ''t1'' ''low'' 1, example_task ''t3'' ''medium'' 3, example_task ''t2'' ''high'' 2]"
    unfolding get_tasks_docs_def Let_def scenario_found
    by (simp add: scenario_store_def priority_before_def scenario_priorities)
  with scenario_priorities show ?thesis by simp
qed

lemma example_prepared:
  "prepare_task_for_response lib today (example_task i p c)
     = Inr ((example_task i p c)(''is_overdue'' \<mapsto> PBool False))"
proof -
  have g: "dict_get (example_task i p c) ''due_date'' = PNone"
    by (simp add: dict_get_def example_task_fields)
  have o: "overdue_check lib today (example_task i p c) = Inr False"
    by (simp add: overdue_check_def g)
  have s: "setdefault (setdefault (setdefault (example_task i p c) ''due_date'' PNone)
              ''priority'' (PStr ''medium'')) ''category'' (PStr ''General'') = example_task i p c"
    by (simp add: setdefault_present example_task_fields)
  show ?thesis
    unfolding prepare_task_for_response_def Let_def s o
    by (simp add: dict_get_def example_task_fields)
qed

lemma scenario_desc:
  "get_tasks iso_lib dot_regex (Date 2024 3 6) scenario_store alice_doc None None None None
     (Some ''priority'') (Some ''desc'')
   = Inr [(example_task ''t2'' ''high'' 2)(''is_overdue'' \<mapsto> PBool False),
          (example_task ''t3'' ''medium'' 3)(''is_overdue'' \<mapsto> PBool False),
          (example_task ''t1'' ''low'' 1)(''is_overdue'' \<mapsto> PBool False)]"
proof -
  have "get_tasks_docs dot_regex scenario_store alice_doc None None None None (Some ''priority'') (Some ''desc'')
     = Inr [example_task ''t2'' ''high'' 2, example_task ''t3'' ''medium'' 3, example_task ''t1'' ''low'' 1]"
    unfolding get_tasks_docs_def Let_def scenario_found
    by (simp add: scenario_store_def priority_before_def scenario_priorities)
  then show ?thesis by (simp add: get_tasks_def example_prepared)
qed

text \<open>
  The same three tasks with \<open>sort_order = desc\<close>: high, medium, low.
\<close>

theorem priority_sort_follows_direction_witness:
  "get_tasks iso_lib dot_regex (Date 2024 3 6) scenario_store alice_doc None None None None
     (Some ''priority'') (Some ''desc'')
   = Inr [(example_task ''t2'' ''high'' 2)(''is_overdue'' \<mapsto> PBool False),
          (example_task ''t3'' ''medium'' 3)(''is_overdue'' \<mapsto> PBool False),
          (example_task ''t1'' ''low'' 1)(''is_overdue'' \<mapsto> PBool False)]
   \<and> (\<exists>tasks.
           get_tasks_docs dot_regex scenario_store alice_doc None None None None
             (Some ''priority'') (Some ''desc'') = Inr tasks
         \<and> list_all2 (\<lambda>t r. prepare_task_for_response iso_lib (Date 2024 3 6) t = Inr r) tasks
             [(example_task ''t2'' ''high'' 2)(''is_overdue'' \<mapsto> PBool False),
              (example_task ''t3'' ''medium'' 3)(''is_overdue'' \<mapsto> PBool False),
              (example_task ''t1'' ''low'' 1)(''is_overdue'' \<mapsto> PBool False)]
         \<and> (Some ''desc'' = Some ''asc'' \<longrightarrow>
              sorted_wrt (\<lambda>a b. priority_order a \<le> priority_order b) tasks)
         \<and> (Some ''desc'' \<noteq> Some ''asc'' \<longrightarrow>
              sorted_wrt (\<lambda>a b. priority_order b \<le> priority_order a) tasks)
         \<and> sorted_wrt (\<lambda>a b. priority_order a = priority_order b \<longrightarrow>
                              bson_le (b ''created_at'') (a ''created_at'')) tasks)"
  using scenario_desc priority_sort_follows_direction[OF scenario_desc] by (rule conjI)

section \<open>Properties of the search\<close>
















end
